theory Spec2Isabelle
  imports Main
begin

section \<open>Python text primitives used by the loader\<close>

text \<open>
  A Python \<open>str\<close> is modelled as a \<open>string\<close> whose characters are the code points
  below 256.  The functions below are the built-ins that \<open>spmatrix.py\<close> calls on text:
  \<open>str.strip()\<close>, \<open>str.split(sep)\<close> with a one-character separator, the slice
  \<open>[1:-1]\<close>, \<open>int(str)\<close> and \<open>str(int)\<close>.  \<open>int\<close> accepts surrounding white space, one
  sign and decimal digits with single underscores between digits.  Both conversions raise
  \<open>ValueError\<close> when the number has more digits than the interpreter's limit,
  \<open>sys.get_int_max_str_digits()\<close>, which is 4300 unless it is reconfigured; \<open>int\<close> counts
  every digit character of the literal, leading zeros included.
\<close>

definition max_str_digits :: nat where
  "max_str_digits = 4300"

definition str_isspace :: "char \<Rightarrow> bool" where
  \<comment> \<open>the characters \<open>str.strip()\<close> removes\<close>
  "str_isspace c = (c \<in> set [CHR 0x09, CHR 0x0A, CHR 0x0B, CHR 0x0C, CHR 0x0D,
       CHR 0x1C, CHR 0x1D, CHR 0x1E, CHR 0x1F, CHR 0x20, CHR 0x85, CHR 0xA0])"

definition int_isspace :: "char \<Rightarrow> bool" where
  \<comment> \<open>the characters \<open>int()\<close> skips around a literal\<close>
  "int_isspace c = (c \<in> set [CHR 0x09, CHR 0x0A, CHR 0x0B, CHR 0x0C, CHR 0x0D,
       CHR 0x20, CHR 0x85, CHR 0xA0])"

definition strip :: "string \<Rightarrow> string" where
  "strip s = rev (dropWhile str_isspace (rev (dropWhile str_isspace s)))"

definition slice_1_m1 :: "string \<Rightarrow> string" where
  \<comment> \<open>\<open>s[1:-1]\<close>: without the first and the last character, empty when \<open>len(s) < 2\<close>\<close>
  "slice_1_m1 s = butlast (tl s)"

fun str_split :: "char \<Rightarrow> string \<Rightarrow> string list" where
  "str_split sep [] = [[]]"
| "str_split sep (c # cs) =
     (if c = sep then [] # str_split sep cs
      else (case str_split sep cs of
              [] \<Rightarrow> [[c]]
            | f # fs \<Rightarrow> (c # f) # fs))"

definition is_digit :: "char \<Rightarrow> bool" where
  "is_digit c = (48 \<le> (of_char c :: nat) \<and> (of_char c :: nat) \<le> 57)"

definition digit_value :: "char \<Rightarrow> nat" where
  "digit_value c = of_char c - 48"

fun int_digits :: "nat \<Rightarrow> string \<Rightarrow> nat option" where
  \<comment> \<open>the rest of a decimal literal after a digit: digits, with single underscores
      allowed between two digits\<close>
  "int_digits acc [] = Some acc"
| "int_digits acc [c] = (if is_digit c then Some (10 * acc + digit_value c) else None)"
| "int_digits acc (c # d # cs) =
     (if is_digit c then int_digits (10 * acc + digit_value c) (d # cs)
      else if c = CHR ''_'' \<and> is_digit d then int_digits (10 * acc + digit_value d) cs
      else None)"

definition int_unsigned :: "string \<Rightarrow> nat option" where
  \<comment> \<open>a literal without its sign; \<open>None\<close> when it is not a literal or has more than
      \<open>max_str_digits\<close> digits\<close>
  "int_unsigned s =
     (case s of
        [] \<Rightarrow> None
      | c # cs \<Rightarrow>
          if is_digit c then
            (if max_str_digits < length (filter is_digit s) then None
             else int_digits (digit_value c) cs)
          else None)"

definition py_int :: "string \<Rightarrow> int option" where
  \<comment> \<open>\<open>int(s)\<close> in base 10; \<open>None\<close> stands for the \<open>ValueError\<close> it raises\<close>
  "py_int s =
     (let t = rev (dropWhile int_isspace (rev (dropWhile int_isspace s)))
      in case t of
           [] \<Rightarrow> None
         | c # cs \<Rightarrow>
             if c = CHR ''-'' then map_option (\<lambda>n. - int n) (int_unsigned cs)
             else if c = CHR ''+'' then map_option int (int_unsigned cs)
             else map_option int (int_unsigned t))"

definition digit_char :: "nat \<Rightarrow> char" where
  "digit_char d = ''0123456789'' ! d"

fun str_nat :: "nat \<Rightarrow> string" where
  "str_nat n = (if n < 10 then [digit_char n] else str_nat (n div 10) @ [digit_char (n mod 10)])"

declare str_nat.simps [simp del]

definition str_int :: "int \<Rightarrow> string" where
  \<comment> \<open>the decimal text of \<open>i\<close>\<close>
  "str_int i = (if i < 0 then CHR ''-'' # str_nat (nat (- i)) else str_nat (nat i))"

definition str_fits :: "int \<Rightarrow> bool" where
  "str_fits i \<longleftrightarrow> length (str_nat (nat \<bar>i\<bar>)) \<le> max_str_digits"

definition py_str :: "int \<Rightarrow> string option" where
  \<comment> \<open>\<open>str(i)\<close>, which is also what an f-string computes for \<open>{i}\<close>; \<open>None\<close> stands for
      the \<open>ValueError\<close> it raises above the digit limit\<close>
  "py_str i = (if str_fits i then Some (str_int i) else None)"

fun file_lines :: "string \<Rightarrow> string list" where
  \<comment> \<open>the lines of a text file as Python reads them, each with its newline\<close>
  "file_lines [] = []"
| "file_lines (c # cs) =
     (if c = CHR 0x0A then [c] # file_lines cs
      else (case file_lines cs of
              [] \<Rightarrow> [[c]]
            | l # ls \<Rightarrow> (c # l) # ls))"

definition readline :: "string list \<Rightarrow> string \<times> string list" where
  \<comment> \<open>\<open>file.readline()\<close> on the lines not yet read: the empty string at the end of file\<close>
  "readline ls = (case ls of [] \<Rightarrow> ([], []) | l # rest \<Rightarrow> (l, rest))"

definition py_range :: "int \<Rightarrow> int list" where
  "py_range n = [0..n - 1]"


section \<open>Dictionaries\<close>

text \<open>
  A Python \<open>dict\<close> keeps its keys in insertion order; an assignment to a key that is
  present keeps the key's position.  Both \<open>for k in d\<close> and \<open>d.items()\<close> follow that order.
\<close>

type_synonym ('k, 'v) dict = "('k \<times> 'v) list"

definition dict_keys :: "('k, 'v) dict \<Rightarrow> 'k list" where
  "dict_keys d = map fst d"

definition dict_get :: "('k, 'v) dict \<Rightarrow> 'k \<Rightarrow> 'v option" where
  "dict_get d k = map_of d k"

fun dict_set :: "('k, 'v) dict \<Rightarrow> 'k \<Rightarrow> 'v \<Rightarrow> ('k, 'v) dict" where
  "dict_set [] k v = [(k, v)]"
| "dict_set ((k', v') # d) k v = (if k' = k then (k, v) # d else (k', v') # dict_set d k v)"


section \<open>Objects and the store\<close>

text \<open>
  A \<open>SparseMatrix\<close> instance holds a reference to the dictionary \<open>self.matrix\<close>, whose
  values are references to row dictionaries.  \<open>set_element\<close> mutates these dictionaries
  in place, so instances, outer dictionaries and row dictionaries live in a store, each
  kind with its own addresses and its own allocation counter.  The store also holds the
  text files that \<open>load_matrix\<close> reads and \<open>save_to_file\<close> writes: a file is the text
  Python reads from it (decoded, with the line ends translated to the newline character),
  opening a path with no file for reading raises \<open>OSError\<close>, and opening a path for
  writing succeeds.  A file whose bytes do not decode has no text and is not represented.

  Dimensions, keys and values are integers, as the loader produces them; the \<open>None\<close>
  dimensions of an instance constructed with no argument are outside the model.
\<close>

type_synonym addr = nat

record SparseMatrix =
  matrix :: addr
  numRows :: int
  numCols :: int

record heap =
  objs :: "addr \<Rightarrow> SparseMatrix"
  outers :: "addr \<Rightarrow> (int, addr) dict"
  inners :: "addr \<Rightarrow> (int, int) dict"
  n_objs :: nat
  n_outers :: nat
  n_inners :: nat
  files :: "string \<Rightarrow> string option"

datatype cause = OSError | IndexError | ValueError

datatype error =
    FormatError cause  \<comment> \<open>\<open>ValueError("Input file has wrong format: {e}")\<close>\<close>
  | DimensionMismatch  \<comment> \<open>\<open>ValueError("Matrix multiplication not possible with incompatible sizes.")\<close>\<close>
  | StrDigitsError  \<comment> \<open>the \<open>ValueError\<close> of \<open>str\<close> above the digit limit, which \<open>save_to_file\<close>
      does not catch\<close>

definition new_obj :: "heap \<Rightarrow> addr \<times> heap" where
  \<comment> \<open>a fresh instance whose attributes are not assigned yet\<close>
  "new_obj h =
     (n_objs h,
      h\<lparr>objs := (objs h)(n_objs h := \<lparr>matrix = 0, numRows = 0, numCols = 0\<rparr>),
        n_objs := Suc (n_objs h)\<rparr>)"

definition new_outer :: "heap \<Rightarrow> addr \<times> heap" where
  \<comment> \<open>\<open>{}\<close> for a dictionary of rows\<close>
  "new_outer h =
     (n_outers h, h\<lparr>outers := (outers h)(n_outers h := []), n_outers := Suc (n_outers h)\<rparr>)"

definition new_inner :: "heap \<Rightarrow> addr \<times> heap" where
  \<comment> \<open>\<open>{}\<close> for one row\<close>
  "new_inner h =
     (n_inners h, h\<lparr>inners := (inners h)(n_inners h := []), n_inners := Suc (n_inners h)\<rparr>)"


section \<open>Element access\<close>

definition lookup2 :: "addr \<Rightarrow> int \<Rightarrow> int \<Rightarrow> heap \<Rightarrow> int" where
  \<comment> \<open>\<open>M.get(row, {}).get(col, 0)\<close> for the dictionary of rows at \<open>m\<close>\<close>
  "lookup2 m row col h =
     (case dict_get (outers h m) row of
        None \<Rightarrow> 0
      | Some d \<Rightarrow> (case dict_get (inners h d) col of None \<Rightarrow> 0 | Some v \<Rightarrow> v))"

definition get_element :: "addr \<Rightarrow> int \<Rightarrow> int \<Rightarrow> heap \<Rightarrow> int" where
  "get_element self row col h = lookup2 (matrix (objs h self)) row col h"

definition store_entry :: "addr \<Rightarrow> int \<Rightarrow> int \<Rightarrow> int \<Rightarrow> heap \<Rightarrow> heap" where
  \<comment> \<open>\<open>if row not in M: M[row] = {}\<close> followed by \<open>M[row][col] = value\<close>, the three lines
      that \<open>set_element\<close> runs on \<open>self.matrix\<close> and \<open>load_matrix\<close> on its local
      \<open>matrix\<close>.  After the first statement the key is present, so the \<open>None\<close> branch
      (a \<open>KeyError\<close>) is never taken.\<close>
  "store_entry m row col value h =
     (let h1 = (if row \<notin> set (dict_keys (outers h m))
                then (let (d, h') = new_inner h
                      in h'\<lparr>outers := (outers h')(m := dict_set (outers h' m) row d)\<rparr>)
                else h)
      in case dict_get (outers h1 m) row of
           None \<Rightarrow> h1
         | Some d \<Rightarrow> h1\<lparr>inners := (inners h1)(d := dict_set (inners h1 d) col value)\<rparr>)"

definition set_element :: "addr \<Rightarrow> int \<Rightarrow> int \<Rightarrow> int \<Rightarrow> heap \<Rightarrow> heap" where
  "set_element self row col value h = store_entry (matrix (objs h self)) row col value h"


section \<open>Loading and construction\<close>

definition parse_entry :: "string \<Rightarrow> cause + (int \<times> int \<times> int)" where
  \<comment> \<open>\<open>entry = line.strip()[1:-1].split(',')\<close>, then
      \<open>int(entry[0]), int(entry[1]), int(entry[2])\<close> evaluated left to right\<close>
  "parse_entry line =
     (case str_split CHR '','' (slice_1_m1 (strip line)) of
        [] \<Rightarrow> Inl IndexError
      | e0 # r0 \<Rightarrow>
          (case py_int e0 of
             None \<Rightarrow> Inl ValueError
           | Some row \<Rightarrow>
               (case r0 of
                  [] \<Rightarrow> Inl IndexError
                | e1 # r1 \<Rightarrow>
                    (case py_int e1 of
                       None \<Rightarrow> Inl ValueError
                     | Some col \<Rightarrow>
                         (case r1 of
                            [] \<Rightarrow> Inl IndexError
                          | e2 # r2 \<Rightarrow>
                              (case py_int e2 of
                                 None \<Rightarrow> Inl ValueError
                               | Some value \<Rightarrow> Inr (row, col, value)))))))"

definition header_int :: "string \<Rightarrow> cause + int" where
  \<comment> \<open>\<open>int(line.split('=')[1])\<close>\<close>
  "header_int line =
     (case str_split CHR ''='' line of
        f0 # f1 # fs \<Rightarrow> (case py_int f1 of None \<Rightarrow> Inl ValueError | Some n \<Rightarrow> Inr n)
      | _ \<Rightarrow> Inl IndexError)"

fun load_entries :: "addr \<Rightarrow> string list \<Rightarrow> heap \<Rightarrow> (error + addr) \<times> heap" where
  \<comment> \<open>the loop \<open>for line in file\<close> of \<open>load_matrix\<close>; an exception leaves the loop and is
      re-raised by the handler as the wrong-format error\<close>
  "load_entries m [] h = (Inr m, h)"
| "load_entries m (line # lines) h =
     (if strip line \<noteq> [] then
        (case parse_entry line of
           Inl c \<Rightarrow> (Inl (FormatError c), h)
         | Inr (row, col, value) \<Rightarrow> load_entries m lines (store_entry m row col value h))
      else load_entries m lines h)"

definition load_matrix :: "addr \<Rightarrow> string \<Rightarrow> heap \<Rightarrow> (error + addr) \<times> heap" where
  \<comment> \<open>returns the reference to the dictionary built, or the wrong-format error; the store
      returned keeps whatever was assigned before the exception\<close>
  "load_matrix self file_path h =
     (let (m, h0) = new_outer h
      in case files h0 file_path of
           None \<Rightarrow> (Inl (FormatError OSError), h0)
         | Some text \<Rightarrow>
             (let (l1, rest1) = readline (file_lines text)
              in case header_int l1 of
                   Inl c \<Rightarrow> (Inl (FormatError c), h0)
                 | Inr rows \<Rightarrow>
                     (let (l2, rest2) = readline rest1
                      in case header_int l2 of
                           Inl c \<Rightarrow> (Inl (FormatError c), h0)
                         | Inr cols \<Rightarrow>
                             load_entries m rest2
                               (h0\<lparr>objs := (objs h0)
                                     (self := (objs h0 self)\<lparr>numRows := rows, numCols := cols\<rparr>)\<rparr>))))"

definition construct_dims :: "int \<Rightarrow> int \<Rightarrow> heap \<Rightarrow> addr \<times> heap" where
  \<comment> \<open>\<open>SparseMatrix(numRows=r, numCols=c)\<close>: the \<open>else\<close> branch of \<open>__init__\<close>\<close>
  "construct_dims r c h =
     (let (self, h1) = new_obj h;
          (m, h2) = new_outer h1
      in (self, h2\<lparr>objs := (objs h2)(self := \<lparr>matrix = m, numRows = r, numCols = c\<rparr>)\<rparr>))"

definition construct_file :: "string \<Rightarrow> heap \<Rightarrow> (error + addr) \<times> heap" where
  \<comment> \<open>\<open>SparseMatrix(matrix_file=path)\<close>: the \<open>if matrix_file\<close> branch of \<open>__init__\<close>\<close>
  "construct_file matrix_file h =
     (let (self, h1) = new_obj h
      in case load_matrix self matrix_file h1 of
           (Inl e, h2) \<Rightarrow> (Inl e, h2)
         | (Inr m, h2) \<Rightarrow>
             (let h3 = h2\<lparr>objs := (objs h2)(self := (objs h2 self)\<lparr>matrix := m\<rparr>)\<rparr>;
                  h4 = h3\<lparr>objs := (objs h3)(self := (objs h3 self)
                          \<lparr>numRows := lookup2 (matrix (objs h3 self)) 0 0 h3\<rparr>)\<rparr>;
                  h5 = h4\<lparr>objs := (objs h4)(self := (objs h4 self)
                          \<lparr>numCols := lookup2 (matrix (objs h4 self)) 0 1 h4\<rparr>)\<rparr>
              in (Inr self, h5)))"

definition SparseMatrix_init :: "string option \<Rightarrow> int \<Rightarrow> int \<Rightarrow> heap \<Rightarrow> (error + addr) \<times> heap" where
  \<comment> \<open>\<open>SparseMatrix(matrix_file, numRows, numCols)\<close>; \<open>None\<close> and the empty string are
      the falsy values of \<open>matrix_file\<close>\<close>
  "SparseMatrix_init matrix_file r c h =
     (case matrix_file of
        None \<Rightarrow> (let (self, h') = construct_dims r c h in (Inr self, h'))
      | Some p \<Rightarrow>
          if p \<noteq> [] then construct_file p h
          else (let (self, h') = construct_dims r c h in (Inr self, h')))"


section \<open>Arithmetic\<close>

text \<open>
  The loops of \<open>add\<close> and \<open>subtract\<close> run over \<open>range(self.numRows)\<close>, evaluated once,
  and \<open>range(self.numCols)\<close>, evaluated at every row.  The loops of \<open>multiply\<close> run over
  the keys of \<open>self.matrix\<close> and, at every row, the keys of \<open>other_matrix.matrix\<close>; the
  body writes to the dictionaries of \<open>result\<close> only, so the dictionaries iterated do not
  change during the iteration and the keys are those read when the loop starts.
\<close>

definition add :: "addr \<Rightarrow> addr \<Rightarrow> heap \<Rightarrow> addr \<times> heap" where
  "add self other_matrix h =
     (let (result, h0) = construct_dims (numRows (objs h self)) (numCols (objs h self)) h
      in (result,
          fold (\<lambda>row h1.
                  fold (\<lambda>col h2.
                          set_element result row col
                            (get_element self row col h2 + get_element other_matrix row col h2) h2)
                       (py_range (numCols (objs h1 self))) h1)
               (py_range (numRows (objs h0 self))) h0))"

definition subtract :: "addr \<Rightarrow> addr \<Rightarrow> heap \<Rightarrow> addr \<times> heap" where
  "subtract self other_matrix h =
     (let (result, h0) = construct_dims (numRows (objs h self)) (numCols (objs h self)) h
      in (result,
          fold (\<lambda>row h1.
                  fold (\<lambda>col h2.
                          set_element result row col
                            (get_element self row col h2 - get_element other_matrix row col h2) h2)
                       (py_range (numCols (objs h1 self))) h1)
               (py_range (numRows (objs h0 self))) h0))"

definition dot :: "addr \<Rightarrow> addr \<Rightarrow> int \<Rightarrow> int \<Rightarrow> heap \<Rightarrow> int" where
  \<comment> \<open>\<open>sum(self.get_element(row, k) * other_matrix.get_element(k, col)
      for k in range(self.numCols))\<close>\<close>
  "dot self other_matrix row col h =
     sum_list (map (\<lambda>k. get_element self row k h * get_element other_matrix k col h)
                   (py_range (numCols (objs h self))))"

definition row_has :: "addr \<Rightarrow> int \<Rightarrow> int \<Rightarrow> heap \<Rightarrow> bool" where
  \<comment> \<open>\<open>col in self.matrix[row]\<close>, evaluated for a \<open>row\<close> taken from \<open>self.matrix\<close>\<close>
  "row_has self row col h =
     (case dict_get (outers h (matrix (objs h self))) row of
        None \<Rightarrow> False
      | Some d \<Rightarrow> col \<in> set (dict_keys (inners h d)))"

definition multiply :: "addr \<Rightarrow> addr \<Rightarrow> heap \<Rightarrow> (error + addr) \<times> heap" where
  "multiply self other_matrix h =
     (if numCols (objs h self) \<noteq> numRows (objs h other_matrix) then (Inl DimensionMismatch, h)
      else
        (let (result, h0) =
               construct_dims (numRows (objs h self)) (numCols (objs h other_matrix)) h
         in (Inr result,
             fold (\<lambda>row h1.
                     fold (\<lambda>col h2.
                             if row_has self row col h2
                             then set_element result row col (dot self other_matrix row col h2) h2
                             else h2)
                          (dict_keys (outers h1 (matrix (objs h1 other_matrix)))) h1)
                  (dict_keys (outers h0 (matrix (objs h0 self)))) h0)))"


section \<open>Saving\<close>

definition entries :: "addr \<Rightarrow> heap \<Rightarrow> (int \<times> int \<times> int) list" where
  \<comment> \<open>the stored entries in the order of
      \<open>for row in self.matrix: for col, value in self.matrix[row].items()\<close>\<close>
  "entries self h =
     concat (map (\<lambda>(row, d). map (\<lambda>(col, value). (row, col, value)) (inners h d))
                 (outers h (matrix (objs h self))))"

definition header_text :: "string \<Rightarrow> int \<Rightarrow> string option" where
  \<comment> \<open>\<open>f"rows={self.numRows}\n"\<close> and \<open>f"cols={self.numCols}\n"\<close>\<close>
  "header_text key n = map_option (\<lambda>s. key @ ''='' @ s @ [CHR 0x0A]) (py_str n)"

definition entry_text :: "int \<times> int \<times> int \<Rightarrow> string option" where
  \<comment> \<open>\<open>f"({row}, {col}, {value})\n"\<close>, the fields converted from left to right\<close>
  "entry_text e =
     (case e of (row, col, value) \<Rightarrow>
        (case py_str row of
           None \<Rightarrow> None
         | Some r \<Rightarrow>
             (case py_str col of
                None \<Rightarrow> None
              | Some c \<Rightarrow>
                  (case py_str value of
                     None \<Rightarrow> None
                   | Some v \<Rightarrow> Some (''('' @ r @ '', '' @ c @ '', '' @ v @ '')'' @ [CHR 0x0A])))))"

fun write_lines :: "string option list \<Rightarrow> string \<Rightarrow> (error + unit) \<times> string" where
  \<comment> \<open>the calls of \<open>file.write\<close> in order: an f-string that raises ends the writing, and
      the file keeps what was written before\<close>
  "write_lines [] written = (Inr (), written)"
| "write_lines (None # ls) written = (Inl StrDigitsError, written)"
| "write_lines (Some l # ls) written = write_lines ls (written @ l)"

definition save_to_file :: "addr \<Rightarrow> string \<Rightarrow> heap \<Rightarrow> (error + unit) \<times> heap" where
  "save_to_file self file_path h =
     (let (res, written) =
            write_lines (header_text ''rows'' (numRows (objs h self)) #
                         header_text ''cols'' (numCols (objs h self)) #
                         map entry_text (entries self h)) []
      in (res, h\<lparr>files := (files h)(file_path \<mapsto> written)\<rparr>))"

definition entry_line :: "int \<times> int \<times> int \<Rightarrow> string" where
  \<comment> \<open>the line of an entry whose three numbers are within the digit limit\<close>
  "entry_line e =
     (case e of (row, col, value) \<Rightarrow>
        ''('' @ str_int row @ '', '' @ str_int col @ '', '' @ str_int value @ '')'' @ [CHR 0x0A])"

definition file_text :: "addr \<Rightarrow> heap \<Rightarrow> string" where
  \<comment> \<open>the text \<open>save_to_file\<close> writes when every number is within the digit limit\<close>
  "file_text self h =
     ''rows='' @ str_int (numRows (objs h self)) @ [CHR 0x0A] @
     ''cols='' @ str_int (numCols (objs h self)) @ [CHR 0x0A] @
     concat (map entry_line (entries self h))"

definition fits_all :: "heap \<Rightarrow> addr \<Rightarrow> bool" where
  "fits_all h a \<longleftrightarrow>
     str_fits (numRows (objs h a)) \<and> str_fits (numCols (objs h a)) \<and>
     list_all (\<lambda>(row, col, value). str_fits row \<and> str_fits col \<and> str_fits value) (entries a h)"


section \<open>Invariants of the store\<close>

text \<open>
  Every reference that Python code can hold points to an object that exists.  In the model
  an object exists when its address is below the allocation counter of its kind;
  \<open>allocated h a\<close> says so for the instance \<open>a\<close>, its dictionary of rows and every row
  dictionary.  \<open>rows_ok\<close> adds that the rows of one matrix are distinct dictionaries, which
  holds for every matrix the class builds (\<open>new_inner\<close> is the only source of row
  dictionaries).
\<close>

definition allocated :: "heap \<Rightarrow> addr \<Rightarrow> bool" where
  "allocated h a \<longleftrightarrow>
     a < n_objs h \<and> matrix (objs h a) < n_outers h \<and>
     (\<forall>d \<in> set (map snd (outers h (matrix (objs h a)))). d < n_inners h)"

definition rows_ok :: "heap \<Rightarrow> addr \<Rightarrow> bool" where
  "rows_ok h m \<longleftrightarrow>
     distinct (map snd (outers h m)) \<and> (\<forall>d \<in> set (map snd (outers h m)). d < n_inners h)"

definition frame :: "heap \<Rightarrow> heap \<Rightarrow> bool" where
  \<comment> \<open>every object that exists in \<open>h\<close> is the same in \<open>h'\<close>; so are the files\<close>
  "frame h h' \<longleftrightarrow>
     n_objs h \<le> n_objs h' \<and> n_outers h \<le> n_outers h' \<and> n_inners h \<le> n_inners h' \<and>
     (\<forall>a < n_objs h. objs h' a = objs h a) \<and>
     (\<forall>m < n_outers h. outers h' m = outers h m) \<and>
     (\<forall>d < n_inners h. inners h' d = inners h d) \<and>
     files h' = files h"

definition fresh :: "heap \<Rightarrow> heap \<Rightarrow> addr \<Rightarrow> bool" where
  \<comment> \<open>the instance \<open>r\<close> of \<open>h'\<close> and all its dictionaries were allocated after \<open>h\<close>\<close>
  "fresh h h' r \<longleftrightarrow>
     n_objs h \<le> r \<and> r < n_objs h' \<and>
     n_outers h \<le> matrix (objs h' r) \<and> matrix (objs h' r) < n_outers h' \<and>
     n_inners h \<le> n_inners h' \<and>
     distinct (map snd (outers h' (matrix (objs h' r)))) \<and>
     (\<forall>d \<in> set (map snd (outers h' (matrix (objs h' r)))). n_inners h \<le> d \<and> d < n_inners h')"

definition has2 :: "addr \<Rightarrow> int \<Rightarrow> int \<Rightarrow> heap \<Rightarrow> bool" where
  \<comment> \<open>the key \<open>col\<close> is stored in the row \<open>row\<close> of the dictionary of rows at \<open>m\<close>\<close>
  "has2 m row col h =
     (case dict_get (outers h m) row of
        None \<Rightarrow> False
      | Some d \<Rightarrow> col \<in> set (dict_keys (inners h d)))"

definition inner_refs :: "heap \<Rightarrow> addr \<Rightarrow> addr set" where
  "inner_refs h a = set (map snd (outers h (matrix (objs h a))))"

definition unchanged :: "heap \<Rightarrow> heap \<Rightarrow> addr \<Rightarrow> bool" where
  \<comment> \<open>the attributes of \<open>a\<close>, its dictionary of rows and every row dictionary are the same\<close>
  "unchanged h h' a \<longleftrightarrow>
     objs h' a = objs h a \<and>
     outers h' (matrix (objs h a)) = outers h (matrix (objs h a)) \<and>
     (\<forall>d \<in> inner_refs h a. inners h' d = inners h d)"

definition shares_store :: "heap \<Rightarrow> addr \<Rightarrow> addr \<Rightarrow> bool" where
  "shares_store h a b \<longleftrightarrow>
     matrix (objs h a) = matrix (objs h b) \<or> inner_refs h a \<inter> inner_refs h b \<noteq> {}"

definition new_result :: "heap \<Rightarrow> heap \<Rightarrow> addr \<Rightarrow> addr \<Rightarrow> addr \<Rightarrow> bool" where
  \<comment> \<open>\<open>r\<close> is an instance created between \<open>h\<close> and \<open>h'\<close>, the operands \<open>A\<close> and \<open>B\<close> are
      as they were, and \<open>r\<close> has no dictionary in common with either\<close>
  "new_result h h' A B r \<longleftrightarrow>
     n_objs h \<le> r \<and> r < n_objs h' \<and>
     unchanged h h' A \<and> unchanged h h' B \<and>
     entries A h' = entries A h \<and> entries B h' = entries B h \<and>
     \<not> shares_store h' r A \<and> \<not> shares_store h' r B"

text \<open>
  \<open>valid h a\<close>: the instance \<open>a\<close> and its dictionaries exist and its rows are distinct
  dictionaries.  Dimension-mode and file-mode construction and the three arithmetic
  operations return valid instances, and \<open>set_element\<close> keeps an instance valid.
\<close>

definition valid :: "heap \<Rightarrow> addr \<Rightarrow> bool" where
  "valid h a \<longleftrightarrow> allocated h a \<and> rows_ok h (matrix (objs h a))"



text \<open>
  \<open>dict_ok h a\<close>: the keys of the dictionary of rows of \<open>a\<close> are distinct, and so are the
  keys of each of its row dictionaries, as the keys of a Python dictionary are.
\<close>

definition dict_ok :: "heap \<Rightarrow> addr \<Rightarrow> bool" where
  "dict_ok h a \<longleftrightarrow>
     distinct (dict_keys (outers h (matrix (objs h a)))) \<and>
     (\<forall>d \<in> inner_refs h a. distinct (dict_keys (inners h d)))"



section \<open>Example stores\<close>

text \<open>
  \<open>example_AB\<close> holds the two matrices of the spec's scenario as dimension-mode
  construction and \<open>set_element\<close> build them: instance 0 is the 2 by 2 matrix with
  entries 1, 2, 3, 4 and instance 1 the 2 by 2 matrix with 5 at (0,0) and 6 at (1,1).
  \<open>example_23\<close> holds an empty 2 by 3 matrix and an empty 2 by 2 matrix.
\<close>

definition empty_heap :: heap where
  "empty_heap =
     \<lparr>objs = (\<lambda>_. \<lparr>matrix = 0, numRows = 0, numCols = 0\<rparr>), outers = (\<lambda>_. []),
      inners = (\<lambda>_. []), n_objs = 0, n_outers = 0, n_inners = 0, files = (\<lambda>_. None)\<rparr>"

definition example_AB :: heap where
  "example_AB =
     \<lparr>objs = (\<lambda>_. \<lparr>matrix = 0, numRows = 0, numCols = 0\<rparr>)
        (0 := \<lparr>matrix = 0, numRows = 2, numCols = 2\<rparr>,
         Suc 0 := \<lparr>matrix = Suc 0, numRows = 2, numCols = 2\<rparr>),
      outers = (\<lambda>_. [])(0 := [(0, 0), (1, Suc 0)], Suc 0 := [(0, 2), (1, 3)]),
      inners = (\<lambda>_. [])(0 := [(0, 1), (1, 2)], Suc 0 := [(0, 3), (1, 4)],
                         2 := [(0, 5)], 3 := [(1, 6)]),
      n_objs = 2, n_outers = 2, n_inners = 4, files = (\<lambda>_. None)\<rparr>"

definition example_23 :: heap where
  "example_23 =
     \<lparr>objs = (\<lambda>_. \<lparr>matrix = 0, numRows = 0, numCols = 0\<rparr>)
        (0 := \<lparr>matrix = 0, numRows = 2, numCols = 3\<rparr>,
         Suc 0 := \<lparr>matrix = Suc 0, numRows = 2, numCols = 2\<rparr>),
      outers = (\<lambda>_. [])(0 := [], Suc 0 := []),
      inners = (\<lambda>_. []),
      n_objs = 2, n_outers = 2, n_inners = 0, files = (\<lambda>_. None)\<rparr>"

text \<open>
  \<open>example_diff\<close> holds a 2 by 2 matrix with entries 1, 2, 3, 4 and a 1 by 1 matrix
  with the entry 5.
\<close>

definition example_diff :: heap where
  "example_diff =
     \<lparr>objs = (\<lambda>_. \<lparr>matrix = 0, numRows = 0, numCols = 0\<rparr>)
        (0 := \<lparr>matrix = 0, numRows = 2, numCols = 2\<rparr>,
         Suc 0 := \<lparr>matrix = Suc 0, numRows = 1, numCols = 1\<rparr>),
      outers = (\<lambda>_. [])(0 := [(0, 0), (1, Suc 0)], Suc 0 := [(0, 2)]),
      inners = (\<lambda>_. [])(0 := [(0, 1), (1, 2)], Suc 0 := [(0, 3), (1, 4)], 2 := [(0, 5)]),
      n_objs = 2, n_outers = 2, n_inners = 3, files = (\<lambda>_. None)\<rparr>"

section \<open>The files and stores of the scenarios\<close>

text \<open>
  \<open>text_A\<close> and \<open>text_B\<close> are the two files of the spec's concrete scenario; \<open>disk\<close> is
  a store with no objects that holds them.  \<open>heap_A\<close> is the store after
  \<open>SparseMatrix(matrix_file='A.txt')\<close> on \<open>disk\<close>, and \<open>heap_AB\<close> the store after
  \<open>SparseMatrix(matrix_file='B.txt')\<close> on \<open>heap_A\<close>.  \<open>heap_M\<close> holds one 2 by 2 matrix
  with 7 at (0,0) and 5 at (1,1), \<open>heap_saved\<close> is \<open>heap_M\<close> after saving that matrix to
  \<open>out.txt\<close>, and \<open>reloaded\<close> is the construction of a matrix from the saved file.
  \<open>text_four\<close> has a data line of four components, \<open>text_short\<close> one of two.
\<close>

definition text_A :: string where
  "text_A = ''rows=2\<newline>cols=2\<newline>(0,0,1)\<newline>(0,1,2)\<newline>(1,0,3)\<newline>(1,1,4)\<newline>''"

definition text_B :: string where
  "text_B = ''rows=2\<newline>cols=2\<newline>(0,0,5)\<newline>(1,1,6)\<newline>''"

definition disk :: heap where
  "disk = empty_heap\<lparr>files := (\<lambda>_. None)(''A.txt'' := Some text_A, ''B.txt'' := Some text_B)\<rparr>"

definition heap_A :: heap where
  "heap_A =
     \<lparr>objs = (\<lambda>_. \<lparr>matrix = 0, numRows = 0, numCols = 0\<rparr>)
        (0 := \<lparr>matrix = 0, numRows = 1, numCols = 2\<rparr>),
      outers = (\<lambda>_. [])(0 := [(0, 0), (1, Suc 0)]),
      inners = (\<lambda>_. [])(0 := [(0, 1), (1, 2)], Suc 0 := [(0, 3), (1, 4)]),
      n_objs = Suc 0, n_outers = Suc 0, n_inners = Suc (Suc 0),
      files = (\<lambda>_. None)(''A.txt'' := Some text_A, ''B.txt'' := Some text_B)\<rparr>"

definition heap_AB :: heap where
  "heap_AB =
     \<lparr>objs = (\<lambda>_. \<lparr>matrix = 0, numRows = 0, numCols = 0\<rparr>)
        (0 := \<lparr>matrix = 0, numRows = 1, numCols = 2\<rparr>,
         Suc 0 := \<lparr>matrix = Suc 0, numRows = 5, numCols = 0\<rparr>),
      outers = (\<lambda>_. [])(0 := [(0, 0), (1, Suc 0)], Suc 0 := [(0, 2), (1, 3)]),
      inners = (\<lambda>_. [])(0 := [(0, 1), (1, 2)], Suc 0 := [(0, 3), (1, 4)],
                         2 := [(0, 5)], 3 := [(1, 6)]),
      n_objs = 2, n_outers = 2, n_inners = 4,
      files = (\<lambda>_. None)(''A.txt'' := Some text_A, ''B.txt'' := Some text_B)\<rparr>"

definition heap_M :: heap where
  "heap_M =
     \<lparr>objs = (\<lambda>_. \<lparr>matrix = 0, numRows = 0, numCols = 0\<rparr>)
        (0 := \<lparr>matrix = 0, numRows = 2, numCols = 2\<rparr>),
      outers = (\<lambda>_. [])(0 := [(0, 0), (1, Suc 0)]),
      inners = (\<lambda>_. [])(0 := [(0, 7)], Suc 0 := [(1, 5)]),
      n_objs = Suc 0, n_outers = Suc 0, n_inners = 2, files = (\<lambda>_. None)\<rparr>"

definition heap_saved :: heap where
  "heap_saved =
     \<lparr>objs = (\<lambda>_. \<lparr>matrix = 0, numRows = 0, numCols = 0\<rparr>)
        (0 := \<lparr>matrix = 0, numRows = 2, numCols = 2\<rparr>),
      outers = (\<lambda>_. [])(0 := [(0, 0), (1, Suc 0)]),
      inners = (\<lambda>_. [])(0 := [(0, 7)], Suc 0 := [(1, 5)]),
      n_objs = Suc 0, n_outers = Suc 0, n_inners = 2,
      files = (\<lambda>_. None)
        (''out.txt'' := Some ''rows=2\<newline>cols=2\<newline>(0, 0, 7)\<newline>(1, 1, 5)\<newline>'')\<rparr>"

definition reloaded :: "(error + addr) \<times> heap" where
  "reloaded =
     SparseMatrix_init (Some ''out.txt'') 0 0 (snd (save_to_file 0 ''out.txt'' heap_M))"

definition text_four :: string where
  "text_four = ''rows=1\<newline>cols=1\<newline>(0,0,5,9)\<newline>''"

definition text_short :: string where
  "text_short = ''rows=1\<newline>cols=1\<newline>(0,0)\<newline>''"

definition disk_four :: heap where
  "disk_four =
     empty_heap\<lparr>files := (\<lambda>_. None)(''four.txt'' := Some text_four,
                                       ''short.txt'' := Some text_short)\<rparr>"

text \<open>
  \<open>heap_P\<close> is the store after \<open>P = SparseMatrix(numRows=2, numCols=3)\<close> and
  \<open>P.set_element(0, 0, 4)\<close> on \<open>disk_four\<close>: one 2 by 3 instance that exists before a
  file is loaded into it with \<open>P.load_matrix(path)\<close>.
\<close>

definition heap_P :: heap where
  "heap_P =
     \<lparr>objs = (\<lambda>_. \<lparr>matrix = 0, numRows = 0, numCols = 0\<rparr>)
        (0 := \<lparr>matrix = 0, numRows = 2, numCols = 3\<rparr>),
      outers = (\<lambda>_. [])(0 := [(0, 0)]),
      inners = (\<lambda>_. [])(0 := [(0, 4)]),
      n_objs = Suc 0, n_outers = Suc 0, n_inners = Suc 0,
      files = (\<lambda>_. None)(''four.txt'' := Some text_four, ''short.txt'' := Some text_short)\<rparr>"

text \<open>
  The conditions under which the loader accepts a file, read off the format: a header
  line has a second \<open>=\<close>-separated field that is an integer literal; a data line,
  trimmed and without its first and last character, has at least three comma-separated
  fields of which the first three are integer literals; a file has two header lines and
  every later line is blank or a data line.
\<close>

definition header_ok :: "string \<Rightarrow> bool" where
  "header_ok line \<longleftrightarrow>
     (case str_split CHR ''='' line of
        f0 # f1 # fs \<Rightarrow> py_int f1 \<noteq> None
      | _ \<Rightarrow> False)"

definition entry_ok :: "string \<Rightarrow> bool" where
  "entry_ok line \<longleftrightarrow>
     (case str_split CHR '','' (slice_1_m1 (strip line)) of
        e0 # e1 # e2 # es \<Rightarrow> py_int e0 \<noteq> None \<and> py_int e1 \<noteq> None \<and> py_int e2 \<noteq> None
      | _ \<Rightarrow> False)"

definition file_ok :: "string \<Rightarrow> bool" where
  "file_ok text \<longleftrightarrow>
     (case file_lines text of
        l1 # l2 # ls \<Rightarrow>
          header_ok l1 \<and> header_ok l2 \<and> list_all (\<lambda>l. strip l = [] \<or> entry_ok l) ls
      | _ \<Rightarrow> False)"

definition loadable :: "heap \<Rightarrow> string \<Rightarrow> bool" where
  "loadable h p \<longleftrightarrow> (case files h p of None \<Rightarrow> False | Some text \<Rightarrow> file_ok text)"

text \<open>
  What a file says, read off the format.  \<open>read_headers\<close> gives the two numbers of the
  header when the file opens and both header lines have one; \<open>read_entries\<close> gives the
  entries of the data lines in the order of the file, a line that is blank or is not an
  entry giving none; \<open>last_value es row col\<close> is the value of the last entry of \<open>es\<close> at
  the position, if there is one.

  \<open>others_kept self h h'\<close> says what a call on \<open>self\<close> leaves alone between the stores
  \<open>h\<close> and \<open>h'\<close>: the files, every instance other than \<open>self\<close>, the reference
  \<open>self.matrix\<close>, and every dictionary that exists in \<open>h\<close>.
\<close>

definition header_values :: "string \<Rightarrow> (int \<times> int) option" where
  "header_values content =
     (case file_lines content of
        l1 # l2 # ls \<Rightarrow>
          (case header_int l1 of
             Inl c \<Rightarrow> None
           | Inr rows \<Rightarrow> (case header_int l2 of Inl c \<Rightarrow> None | Inr cols \<Rightarrow> Some (rows, cols)))
      | _ \<Rightarrow> None)"

definition read_headers :: "heap \<Rightarrow> string \<Rightarrow> (int \<times> int) option" where
  "read_headers h p = (case files h p of None \<Rightarrow> None | Some content \<Rightarrow> header_values content)"

definition line_entries :: "string list \<Rightarrow> (int \<times> int \<times> int) list" where
  "line_entries ls =
     concat (map (\<lambda>l. case parse_entry l of Inl c \<Rightarrow> [] | Inr e \<Rightarrow> [e])
                 (filter (\<lambda>l. strip l \<noteq> []) ls))"

definition read_entries :: "heap \<Rightarrow> string \<Rightarrow> (int \<times> int \<times> int) list" where
  "read_entries h p =
     (case files h p of None \<Rightarrow> [] | Some content \<Rightarrow> line_entries (drop 2 (file_lines content)))"

definition last_value :: "(int \<times> int \<times> int) list \<Rightarrow> int \<Rightarrow> int \<Rightarrow> int option" where
  "last_value es row col = map_of (rev (map (\<lambda>(r, c, v). ((r, c), v)) es)) (row, col)"

definition others_kept :: "addr \<Rightarrow> heap \<Rightarrow> heap \<Rightarrow> bool" where
  "others_kept self h h' \<longleftrightarrow>
     files h' = files h \<and> n_objs h' = n_objs h \<and>
     (\<forall>a. a \<noteq> self \<longrightarrow> objs h' a = objs h a) \<and>
     matrix (objs h' self) = matrix (objs h self) \<and>
     (\<forall>m < n_outers h. outers h' m = outers h m) \<and>
     (\<forall>d < n_inners h. inners h' d = inners h d)"


section \<open>Dictionaries: basic facts\<close>

lemma dict_get_set: "dict_get (dict_set d k v) k' = (if k' = k then Some v else dict_get d k')"
  by (induction d) (auto simp: dict_get_def)

lemma dict_get_Nil: "dict_get [] k = None"
  by (simp add: dict_get_def)

lemma dict_get_single: "dict_get [(k, v)] k' = (if k' = k then Some v else None)"
  by (simp add: dict_get_def)

lemma dict_keys_set: "set (dict_keys (dict_set d k v)) = insert k (set (dict_keys d))"
  by (induction d) (auto simp: dict_keys_def rev_image_eqI split: if_splits)

lemma dict_set_new: "k \<notin> set (dict_keys d) \<Longrightarrow> dict_set d k v = d @ [(k, v)]"
  by (induction d) (auto simp: dict_keys_def)

lemma dict_get_None: "dict_get d k = None \<longleftrightarrow> k \<notin> set (dict_keys d)"
  by (simp add: dict_get_def dict_keys_def map_of_eq_None_iff)

lemma dict_get_SomeD: "dict_get d k = Some v \<Longrightarrow> (k, v) \<in> set d"
  by (simp add: dict_get_def map_of_SomeD)

lemma dict_set_mem: "(k, v) \<in> set (dict_set d k v)"
  by (induction d) auto

lemma distinct_keys_set: "distinct (dict_keys d) \<Longrightarrow> distinct (dict_keys (dict_set d k v))"
proof (induction d)
  case Nil
  then show ?case by (simp add: dict_keys_def)
next
  case (Cons p d)
  obtain k' v' where p: "p = (k', v')" by (cases p)
  from Cons.prems have d: "distinct (dict_keys d)" and k': "k' \<notin> set (dict_keys d)"
    by (simp_all add: p dict_keys_def)
  show ?case
  proof (cases "k' = k")
    case True
    with Cons.prems show ?thesis by (simp add: p dict_keys_def)
  next
    case False
    have "dict_keys (dict_set (p # d) k v) = k' # dict_keys (dict_set d k v)"
      using False by (simp add: p dict_keys_def)
    moreover have "k' \<notin> set (dict_keys (dict_set d k v))"
      using False k' by (simp add: dict_keys_set)
    ultimately show ?thesis using Cons.IH [OF d] by simp
  qed
qed

lemma store_entry_old:
  "dict_get (outers h m) row = Some d \<Longrightarrow>
   store_entry m row col v h = h\<lparr>inners := (inners h)(d := dict_set (inners h d) col v)\<rparr>"
  by (simp add: store_entry_def dict_get_None [symmetric])

lemma store_entry_new:
  assumes "dict_get (outers h m) row = None"
  shows "store_entry m row col v h =
     h\<lparr>inners := (inners h)(n_inners h := [(col, v)]),
       n_inners := Suc (n_inners h),
       outers := (outers h)(m := outers h m @ [(row, n_inners h)])\<rparr>"
proof -
  from assms have nk: "row \<notin> set (dict_keys (outers h m))"
    by (simp add: dict_get_None)
  have app: "dict_set (outers h m) row (n_inners h) = outers h m @ [(row, n_inners h)]"
    using nk by (rule dict_set_new)
  have get: "dict_get (outers h m @ [(row, n_inners h)]) row = Some (n_inners h)"
    using dict_get_set [of "outers h m" row "n_inners h" row] by (simp add: app)
  show ?thesis
    using nk by (simp add: store_entry_def new_inner_def app get)
qed

lemma dict_get_snoc:
  "dict_get (d @ [(k, v)]) k' = (case dict_get d k' of Some w \<Rightarrow> Some w | None \<Rightarrow> if k' = k then Some v else None)"
  by (induction d) (auto simp: dict_get_def)

lemma lookup2_store_same: "lookup2 m row col (store_entry m row col v h) = v"
proof (cases "dict_get (outers h m) row")
  case None
  then show ?thesis
    by (simp add: store_entry_new lookup2_def dict_get_snoc dict_get_Nil dict_get_single)
next
  case (Some d)
  then show ?thesis
    by (simp add: store_entry_old lookup2_def dict_get_set)
qed

lemma objs_store_entry: "objs (store_entry m row col v h) = objs h"
  by (cases "dict_get (outers h m) row") (simp_all add: store_entry_new store_entry_old)

lemma files_store_entry: "files (store_entry m row col v h) = files h"
  by (cases "dict_get (outers h m) row") (simp_all add: store_entry_new store_entry_old)

lemma rows_ok_other:
  assumes "rows_ok h m" "dict_get (outers h m) r = Some d" "dict_get (outers h m) r' = Some d'" "r \<noteq> r'"
  shows "d \<noteq> d'"
proof -
  from assms(2,3) have "(r, d) \<in> set (outers h m)" "(r', d') \<in> set (outers h m)"
    by (auto dest: dict_get_SomeD)
  moreover from assms(1) have "inj_on snd (set (outers h m))"
    by (simp add: rows_ok_def distinct_map)
  ultimately show ?thesis
    using assms(4) inj_onD [of snd "set (outers h m)" "(r, d)" "(r', d')"] by auto
qed

lemma rows_ok_bound:
  "rows_ok h m \<Longrightarrow> dict_get (outers h m) r = Some d \<Longrightarrow> d < n_inners h"
  by (force simp: rows_ok_def dest: dict_get_SomeD)

lemma lookup2_store_other:
  assumes ok: "rows_ok h m" and ne: "r \<noteq> row \<or> c \<noteq> col"
  shows "lookup2 m r c (store_entry m row col v h) = lookup2 m r c h"
proof (cases "dict_get (outers h m) row")
  case None
  show ?thesis
  proof (cases "r = row")
    case True
    with None ne show ?thesis
      by (simp add: store_entry_new lookup2_def dict_get_snoc dict_get_Nil dict_get_single)
  next
    case False
    have "d \<noteq> n_inners h" if "dict_get (outers h m) r = Some d" for d
      using rows_ok_bound [OF ok that] by simp
    with None False show ?thesis
      by (auto simp add: store_entry_new lookup2_def dict_get_snoc dict_get_Nil dict_get_single split: option.splits)
  qed
next
  case (Some d)
  show ?thesis
  proof (cases "r = row")
    case True
    with Some ne show ?thesis
      by (simp add: store_entry_old lookup2_def dict_get_set)
  next
    case False
    have "d' \<noteq> d" if "dict_get (outers h m) r = Some d'" for d'
      using rows_ok_other [OF ok that Some False] .
    with Some False show ?thesis
      by (auto simp add: store_entry_old lookup2_def split: option.splits)
  qed
qed

lemma rows_ok_store_entry:
  assumes "rows_ok h m"
  shows "rows_ok (store_entry m row col v h) m"
proof (cases "dict_get (outers h m) row")
  case None
  with assms show ?thesis
    by (force simp add: store_entry_new rows_ok_def)
next
  case (Some d)
  with assms show ?thesis
    by (simp add: store_entry_old rows_ok_def)
qed


section \<open>Frames, freshness and the loops of the arithmetic\<close>

lemma frame_refl: "frame h h"
  by (simp add: frame_def)

lemma frame_trans: "frame h h1 \<Longrightarrow> frame h1 h2 \<Longrightarrow> frame h h2"
  by (auto simp: frame_def)

lemma fresh_rows_ok: "fresh h h' r \<Longrightarrow> rows_ok h' (matrix (objs h' r))"
  by (auto simp: fresh_def rows_ok_def)

lemma construct_dims_eq:
  "construct_dims r c h =
     (n_objs h,
      h\<lparr>objs := (objs h)(n_objs h := \<lparr>matrix = n_outers h, numRows = r, numCols = c\<rparr>),
        n_objs := Suc (n_objs h),
        outers := (outers h)(n_outers h := []),
        n_outers := Suc (n_outers h)\<rparr>)"
  by (simp add: construct_dims_def new_obj_def new_outer_def)

lemma construct_dims_frame:
  assumes "construct_dims r c h = (a, h0)"
  shows "frame h h0" and "fresh h h0 a" and "a = n_objs h"
    and "objs h0 a = \<lparr>matrix = n_outers h, numRows = r, numCols = c\<rparr>"
    and "outers h0 (n_outers h) = []"
  using assms by (auto simp: construct_dims_eq frame_def fresh_def)

lemma store_entry_frame:
  assumes fr: "frame h h1" and m: "n_outers h \<le> m"
    and refs: "\<forall>d \<in> set (map snd (outers h1 m)). n_inners h \<le> d"
  shows "frame h (store_entry m row col v h1)"
proof (cases "dict_get (outers h1 m) row")
  case None
  with fr m show ?thesis
    by (auto simp: store_entry_new frame_def)
next
  case (Some d)
  then have "(row, d) \<in> set (outers h1 m)" by (rule dict_get_SomeD)
  with refs have "n_inners h \<le> d" by force
  with fr Some show ?thesis
    by (auto simp: store_entry_old frame_def)
qed

lemma set_element_frame:
  assumes "frame h h1" and "fresh h h1 r"
  shows "frame h (set_element r row col v h1)"
  unfolding set_element_def
  using assms by (intro store_entry_frame) (auto simp: fresh_def)

lemma set_element_fresh:
  assumes fr: "fresh h h1 r"
  shows "fresh h (set_element r row col v h1) r"
proof (cases "dict_get (outers h1 (matrix (objs h1 r))) row")
  case None
  from fr have lt: "\<forall>d \<in> set (map snd (outers h1 (matrix (objs h1 r)))). d < n_inners h1"
    by (simp add: fresh_def)
  then have "n_inners h1 \<notin> set (map snd (outers h1 (matrix (objs h1 r))))"
    by blast
  with fr None lt show ?thesis
    by (auto simp: set_element_def store_entry_new fresh_def less_Suc_eq)
next
  case (Some d)
  with fr show ?thesis
    by (simp add: set_element_def store_entry_old fresh_def)
qed

lemma objs_set_element: "objs (set_element r row col v h) = objs h"
  by (simp add: set_element_def objs_store_entry)

lemma get_element_frame:
  assumes "allocated h a" and "frame h h'"
  shows "get_element a i j h' = get_element a i j h"
proof -
  from assms have o: "objs h' a = objs h a"
    and m: "outers h' (matrix (objs h a)) = outers h (matrix (objs h a))"
    by (auto simp: allocated_def frame_def)
  have "inners h' d = inners h d" if "dict_get (outers h (matrix (objs h a))) i = Some d" for d
  proof -
    from that have "(i, d) \<in> set (outers h (matrix (objs h a)))" by (rule dict_get_SomeD)
    with assms(1) have "d < n_inners h" by (force simp: allocated_def)
    with assms(2) show ?thesis by (simp add: frame_def)
  qed
  then show ?thesis
    by (simp add: get_element_def lookup2_def o m split: option.splits)
qed

lemma get_set_element:
  assumes "fresh h h1 r"
  shows "get_element r i j (set_element r row col v h1) =
           (if i = row \<and> j = col then v else get_element r i j h1)"
  using lookup2_store_other [OF fresh_rows_ok [OF assms], of i row j col v]
  by (simp add: get_element_def objs_store_entry set_element_def lookup2_store_same)

lemma row_has_has2: "row_has self row col h = has2 (matrix (objs h self)) row col h"
  by (simp add: row_has_def has2_def)

lemma has2_store:
  assumes ok: "rows_ok h m"
  shows "has2 m r c (store_entry m row col v h) = (r = row \<and> c = col \<or> has2 m r c h)"
proof (cases "dict_get (outers h m) row")
  case None
  have "d \<noteq> n_inners h" if "dict_get (outers h m) r = Some d" for d
    using rows_ok_bound [OF ok that] by simp
  with None show ?thesis
    by (auto simp add: store_entry_new has2_def dict_get_snoc dict_keys_def split: option.splits)
next
  case (Some d)
  show ?thesis
  proof (cases "r = row")
    case True
    with Some show ?thesis
      by (auto simp add: store_entry_old has2_def dict_keys_set)
  next
    case False
    have "d' \<noteq> d" if "dict_get (outers h m) r = Some d'" for d'
      using rows_ok_other [OF ok that Some False] .
    with Some False show ?thesis
      by (auto simp add: store_entry_old has2_def split: option.splits)
  qed
qed

lemma row_has_set_element:
  assumes "fresh h h1 r"
  shows "row_has r i j (set_element r row col v h1) = (i = row \<and> j = col \<or> row_has r i j h1)"
  using has2_store [OF fresh_rows_ok [OF assms], of i j row col v]
  by (simp add: row_has_has2 objs_store_entry set_element_def)

lemma inner_loop:
  assumes g: "\<And>col h2. frame h h2 \<Longrightarrow> g col h2 = g0 col"
  shows "frame h h1 \<Longrightarrow> fresh h h1 r \<Longrightarrow>
     frame h (fold (\<lambda>col h2. set_element r row col (g col h2) h2) cols h1) \<and>
     fresh h (fold (\<lambda>col h2. set_element r row col (g col h2) h2) cols h1) r \<and>
     (\<forall>i j. get_element r i j (fold (\<lambda>col h2. set_element r row col (g col h2) h2) cols h1) =
            (if i = row \<and> j \<in> set cols then g0 j else get_element r i j h1)) \<and>
     (\<forall>i j. row_has r i j (fold (\<lambda>col h2. set_element r row col (g col h2) h2) cols h1) =
            (i = row \<and> j \<in> set cols \<or> row_has r i j h1)) \<and>
     objs (fold (\<lambda>col h2. set_element r row col (g col h2) h2) cols h1) = objs h1"
proof (induction cols arbitrary: h1)
  case Nil
  then show ?case by simp
next
  case (Cons c cols)
  let ?h2 = "set_element r row c (g c h1) h1"
  have f2: "frame h ?h2" using Cons.prems by (rule set_element_frame)
  have r2: "fresh h ?h2 r" using Cons.prems(2) by (rule set_element_fresh)
  have gv: "g c h1 = g0 c" using Cons.prems(1) by (rule g)
  note IH = Cons.IH [OF f2 r2]
  show ?case
    using IH
    by (simp add: get_set_element [OF Cons.prems(2)] row_has_set_element [OF Cons.prems(2)] gv
          objs_set_element)
       blast
qed

lemma outer_loop:
  assumes g: "\<And>row col h2. frame h h2 \<Longrightarrow> g row col h2 = g0 row col"
    and c: "\<And>h1. frame h h1 \<Longrightarrow> cols h1 = cols0"
  shows "frame h h0 \<Longrightarrow> fresh h h0 r \<Longrightarrow>
     frame h (fold (\<lambda>row h1. fold (\<lambda>col h2. set_element r row col (g row col h2) h2) (cols h1) h1) rows h0) \<and>
     fresh h (fold (\<lambda>row h1. fold (\<lambda>col h2. set_element r row col (g row col h2) h2) (cols h1) h1) rows h0) r \<and>
     (\<forall>i j. get_element r i j (fold (\<lambda>row h1. fold (\<lambda>col h2. set_element r row col (g row col h2) h2) (cols h1) h1) rows h0) =
            (if i \<in> set rows \<and> j \<in> set cols0 then g0 i j else get_element r i j h0)) \<and>
     (\<forall>i j. row_has r i j (fold (\<lambda>row h1. fold (\<lambda>col h2. set_element r row col (g row col h2) h2) (cols h1) h1) rows h0) =
            (i \<in> set rows \<and> j \<in> set cols0 \<or> row_has r i j h0)) \<and>
     objs (fold (\<lambda>row h1. fold (\<lambda>col h2. set_element r row col (g row col h2) h2) (cols h1) h1) rows h0) = objs h0"
proof (induction rows arbitrary: h0)
  case Nil
  then show ?case by simp
next
  case (Cons x rows)
  let ?h1 = "fold (\<lambda>col h2. set_element r x col (g x col h2) h2) (cols h0) h0"
  have cs: "cols h0 = cols0" using Cons.prems(1) by (rule c)
  have inner: "frame h ?h1 \<and> fresh h ?h1 r \<and>
     (\<forall>i j. get_element r i j ?h1 = (if i = x \<and> j \<in> set (cols h0) then g0 x j else get_element r i j h0)) \<and>
     (\<forall>i j. row_has r i j ?h1 = (i = x \<and> j \<in> set (cols h0) \<or> row_has r i j h0)) \<and>
     objs ?h1 = objs h0"
    using inner_loop [of h "g x" "g0 x" h0 r x "cols h0"] g Cons.prems by blast
  then have f1: "frame h ?h1" and r1: "fresh h ?h1 r" by simp_all
  note IH = Cons.IH [OF f1 r1]
  show ?case
    using IH inner by (simp add: cs) blast
qed

lemma set_py_range: "set (py_range n) = {i. 0 \<le> i \<and> i < n}"
  by (auto simp: py_range_def)

lemma allocated_objs: "allocated h a \<Longrightarrow> frame h h' \<Longrightarrow> objs h' a = objs h a"
  by (simp add: allocated_def frame_def)

lemma get_element_empty: "outers h (matrix (objs h r)) = [] \<Longrightarrow> get_element r i j h = 0"
  by (simp add: get_element_def lookup2_def dict_get_Nil)

lemma row_has_empty: "outers h (matrix (objs h r)) = [] \<Longrightarrow> \<not> row_has r i j h"
  by (simp add: row_has_def dict_get_Nil)

lemma elementwise_result:
  assumes A: "allocated h A" and B: "allocated h B"
    and h0: "construct_dims (numRows (objs h A)) (numCols (objs h A)) h = (r, h0)"
    and h': "h' = fold (\<lambda>row h1.
                  fold (\<lambda>col h2.
                          set_element r row col
                            (f (get_element A row col h2) (get_element B row col h2)) h2)
                       (py_range (numCols (objs h1 A))) h1)
               (py_range (numRows (objs h0 A))) h0"
  shows "frame h h'" and "fresh h h' r"
    and "objs h' r = \<lparr>matrix = n_outers h, numRows = numRows (objs h A), numCols = numCols (objs h A)\<rparr>"
    and "get_element r i j h' =
           (if 0 \<le> i \<and> i < numRows (objs h A) \<and> 0 \<le> j \<and> j < numCols (objs h A)
            then f (get_element A i j h) (get_element B i j h) else 0)"
    and "row_has r i j h' \<longleftrightarrow>
           0 \<le> i \<and> i < numRows (objs h A) \<and> 0 \<le> j \<and> j < numCols (objs h A)"
proof -
  note c = construct_dims_frame [OF h0]
  have g: "f (get_element A row col h2) (get_element B row col h2) =
           f (get_element A row col h) (get_element B row col h)" if "frame h h2" for row col h2
    using that A B by (simp add: get_element_frame)
  have cs: "py_range (numCols (objs h1 A)) = py_range (numCols (objs h A))" if "frame h h1" for h1
    using that A by (simp add: allocated_objs)
  have rs: "py_range (numRows (objs h0 A)) = py_range (numRows (objs h A))"
    using c(1) A by (simp add: allocated_objs)
  have e: "outers h0 (matrix (objs h0 r)) = []"
    using c(4,5) by simp
  note L = outer_loop [of h "\<lambda>row col h2. f (get_element A row col h2) (get_element B row col h2)"
      "\<lambda>row col. f (get_element A row col h) (get_element B row col h)"
      "\<lambda>h1. py_range (numCols (objs h1 A))" "py_range (numCols (objs h A))" h0 r
      "py_range (numRows (objs h0 A))", OF g cs c(1) c(2), folded h']
  from L show "frame h h'" and "fresh h h' r" by simp_all
  from L c(4) show "objs h' r = \<lparr>matrix = n_outers h, numRows = numRows (objs h A), numCols = numCols (objs h A)\<rparr>"
    by simp
  from L show "get_element r i j h' =
           (if 0 \<le> i \<and> i < numRows (objs h A) \<and> 0 \<le> j \<and> j < numCols (objs h A)
            then f (get_element A i j h) (get_element B i j h) else 0)"
    by (simp add: rs set_py_range get_element_empty [OF e])
  from L show "row_has r i j h' \<longleftrightarrow>
           0 \<le> i \<and> i < numRows (objs h A) \<and> 0 \<le> j \<and> j < numCols (objs h A)"
    by (simp add: rs set_py_range row_has_empty [OF e])
qed

lemma add_result:
  assumes A: "allocated h A" and B: "allocated h B" and res: "add A B h = (r, h')"
  shows "frame h h'" and "fresh h h' r"
    and "objs h' r = \<lparr>matrix = n_outers h, numRows = numRows (objs h A), numCols = numCols (objs h A)\<rparr>"
    and "get_element r i j h' =
           (if 0 \<le> i \<and> i < numRows (objs h A) \<and> 0 \<le> j \<and> j < numCols (objs h A)
            then get_element A i j h + get_element B i j h else 0)"
    and "row_has r i j h' \<longleftrightarrow>
           0 \<le> i \<and> i < numRows (objs h A) \<and> 0 \<le> j \<and> j < numCols (objs h A)"
proof -
  obtain r0 h0 where h0: "construct_dims (numRows (objs h A)) (numCols (objs h A)) h = (r0, h0)"
    by (cases "construct_dims (numRows (objs h A)) (numCols (objs h A)) h")
  from res have r: "r0 = r" and h': "h' = fold (\<lambda>row h1.
                  fold (\<lambda>col h2.
                          set_element r row col
                            (get_element A row col h2 + get_element B row col h2) h2)
                       (py_range (numCols (objs h1 A))) h1)
               (py_range (numRows (objs h0 A))) h0"
    by (auto simp: add_def h0)
  note E = elementwise_result [where f = "(+)", OF A B h0 [unfolded r] h']
  show "frame h h'" and "fresh h h' r"
    and "objs h' r = \<lparr>matrix = n_outers h, numRows = numRows (objs h A), numCols = numCols (objs h A)\<rparr>"
    and "get_element r i j h' =
           (if 0 \<le> i \<and> i < numRows (objs h A) \<and> 0 \<le> j \<and> j < numCols (objs h A)
            then get_element A i j h + get_element B i j h else 0)"
    and "row_has r i j h' \<longleftrightarrow>
           0 \<le> i \<and> i < numRows (objs h A) \<and> 0 \<le> j \<and> j < numCols (objs h A)"
    by (rule E)+
qed

lemma subtract_result:
  assumes A: "allocated h A" and B: "allocated h B" and res: "subtract A B h = (r, h')"
  shows "frame h h'" and "fresh h h' r"
    and "objs h' r = \<lparr>matrix = n_outers h, numRows = numRows (objs h A), numCols = numCols (objs h A)\<rparr>"
    and "get_element r i j h' =
           (if 0 \<le> i \<and> i < numRows (objs h A) \<and> 0 \<le> j \<and> j < numCols (objs h A)
            then get_element A i j h - get_element B i j h else 0)"
    and "row_has r i j h' \<longleftrightarrow>
           0 \<le> i \<and> i < numRows (objs h A) \<and> 0 \<le> j \<and> j < numCols (objs h A)"
proof -
  obtain r0 h0 where h0: "construct_dims (numRows (objs h A)) (numCols (objs h A)) h = (r0, h0)"
    by (cases "construct_dims (numRows (objs h A)) (numCols (objs h A)) h")
  from res have r: "r0 = r" and h': "h' = fold (\<lambda>row h1.
                  fold (\<lambda>col h2.
                          set_element r row col
                            (get_element A row col h2 - get_element B row col h2) h2)
                       (py_range (numCols (objs h1 A))) h1)
               (py_range (numRows (objs h0 A))) h0"
    by (auto simp: subtract_def h0)
  note E = elementwise_result [where f = "(-)", OF A B h0 [unfolded r] h']
  show "frame h h'" and "fresh h h' r"
    and "objs h' r = \<lparr>matrix = n_outers h, numRows = numRows (objs h A), numCols = numCols (objs h A)\<rparr>"
    and "get_element r i j h' =
           (if 0 \<le> i \<and> i < numRows (objs h A) \<and> 0 \<le> j \<and> j < numCols (objs h A)
            then get_element A i j h - get_element B i j h else 0)"
    and "row_has r i j h' \<longleftrightarrow>
           0 \<le> i \<and> i < numRows (objs h A) \<and> 0 \<le> j \<and> j < numCols (objs h A)"
    by (rule E)+
qed

lemma cond_inner_loop:
  "frame h h1 \<Longrightarrow> fresh h h1 r \<Longrightarrow>
   frame h (fold (\<lambda>col h2. if p col h2 then set_element r row col (g col h2) h2 else h2) cols h1) \<and>
   fresh h (fold (\<lambda>col h2. if p col h2 then set_element r row col (g col h2) h2 else h2) cols h1) r \<and>
   objs (fold (\<lambda>col h2. if p col h2 then set_element r row col (g col h2) h2 else h2) cols h1) = objs h1"
proof (induction cols arbitrary: h1)
  case Nil
  then show ?case by simp
next
  case (Cons c cols)
  show ?case
  proof (cases "p c h1")
    case True
    have "frame h (set_element r row c (g c h1) h1)" using Cons.prems by (rule set_element_frame)
    moreover have "fresh h (set_element r row c (g c h1) h1) r"
      using Cons.prems(2) by (rule set_element_fresh)
    ultimately show ?thesis
      using Cons.IH [of "set_element r row c (g c h1) h1"] True
      by (simp add: objs_set_element)
  next
    case False
    then show ?thesis using Cons.IH [OF Cons.prems] by simp
  qed
qed

lemma cond_outer_loop:
  "frame h h0 \<Longrightarrow> fresh h h0 r \<Longrightarrow>
   frame h (fold (\<lambda>row h1. fold (\<lambda>col h2. if p row col h2 then set_element r row col (g row col h2) h2 else h2) (cols h1) h1) rows h0) \<and>
   fresh h (fold (\<lambda>row h1. fold (\<lambda>col h2. if p row col h2 then set_element r row col (g row col h2) h2 else h2) (cols h1) h1) rows h0) r \<and>
   objs (fold (\<lambda>row h1. fold (\<lambda>col h2. if p row col h2 then set_element r row col (g row col h2) h2 else h2) (cols h1) h1) rows h0) = objs h0"
proof (induction rows arbitrary: h0)
  case Nil
  then show ?case by simp
next
  case (Cons x rows)
  let ?h1 = "fold (\<lambda>col h2. if p x col h2 then set_element r x col (g x col h2) h2 else h2) (cols h0) h0"
  have inner: "frame h ?h1 \<and> fresh h ?h1 r \<and> objs ?h1 = objs h0"
    using Cons.prems by (rule cond_inner_loop)
  then have "frame h ?h1" and "fresh h ?h1 r" by simp_all
  from Cons.IH [OF this] inner show ?case by simp
qed

lemma multiply_result:
  assumes res: "multiply A B h = (Inr r, h')"
  shows "frame h h'" and "fresh h h' r"
    and "objs h' r = \<lparr>matrix = n_outers h, numRows = numRows (objs h A), numCols = numCols (objs h B)\<rparr>"
proof -
  obtain r0 h0 where h0: "construct_dims (numRows (objs h A)) (numCols (objs h B)) h = (r0, h0)"
    by (cases "construct_dims (numRows (objs h A)) (numCols (objs h B)) h")
  from res have r: "r0 = r"
    and h': "h' = fold (\<lambda>row h1.
                     fold (\<lambda>col h2.
                             if row_has A row col h2
                             then set_element r row col (dot A B row col h2) h2
                             else h2)
                          (dict_keys (outers h1 (matrix (objs h1 B)))) h1)
                (dict_keys (outers h0 (matrix (objs h0 A)))) h0"
    by (auto simp: multiply_def h0 split: if_splits)
  note c = construct_dims_frame [OF h0 [unfolded r]]
  note L = cond_outer_loop [of h h0 r "row_has A" "dot A B"
      "\<lambda>h1. dict_keys (outers h1 (matrix (objs h1 B)))" "dict_keys (outers h0 (matrix (objs h0 A)))",
      OF c(1) c(2), folded h']
  from L show "frame h h'" and "fresh h h' r" by simp_all
  from L c(4) show "objs h' r = \<lparr>matrix = n_outers h, numRows = numRows (objs h A), numCols = numCols (objs h B)\<rparr>"
    by simp
qed

section \<open>Evaluation on the example stores\<close>

lemma store_entry_eq:
  "store_entry m row col v h =
     (case dict_get (outers h m) row of
        None \<Rightarrow> h\<lparr>inners := (inners h)(n_inners h := [(col, v)]),
                  n_inners := Suc (n_inners h),
                  outers := (outers h)(m := outers h m @ [(row, n_inners h)])\<rparr>
      | Some d \<Rightarrow> h\<lparr>inners := (inners h)(d := dict_set (inners h d) col v)\<rparr>)"
  by (simp add: store_entry_new store_entry_old split: option.splits)

lemmas heap_eval = store_entry_eq construct_dims_eq lookup2_def dict_get_def dict_keys_def
  get_element_def set_element_def entries_def

lemma example_AB_built:
  "example_AB =
     set_element 1 1 1 6 (set_element 1 0 0 5 (snd (construct_dims 2 2
       (set_element 0 1 1 4 (set_element 0 1 0 3 (set_element 0 0 1 2 (set_element 0 0 0 1
         (snd (construct_dims 2 2 empty_heap)))))))))"
  by (simp add: heap_eval example_AB_def empty_heap_def eval_nat_numeral)

lemma example_AB_allocated: "allocated example_AB 0" "allocated example_AB (Suc 0)"
  by (simp_all add: allocated_def example_AB_def)

lemma example_AB_rows_ok: "rows_ok example_AB (matrix (objs example_AB 0))"
  by (simp add: rows_ok_def example_AB_def)

lemma example_AB_get:
  "get_element 0 1 1 example_AB = 4" "get_element (Suc 0) 1 1 example_AB = 6"
  "get_element 0 0 1 example_AB = 2" "get_element (Suc 0) 0 1 example_AB = 0"
  by (simp_all add: get_element_def lookup2_def dict_get_def example_AB_def)

lemma example_23_dims:
  "numCols (objs example_23 0) = 3" "numRows (objs example_23 (Suc 0)) = 2"
  by (simp_all add: example_23_def)

lemma example_AB_dims:
  "numRows (objs example_AB 0) = 2" "numCols (objs example_AB 0) = 2"
  "numRows (objs example_AB (Suc 0)) = 2" "numCols (objs example_AB (Suc 0)) = 2"
  by (simp_all add: example_AB_def)

section \<open>Facts shared by the claims\<close>

lemma entries_store_entry:
  "(row, col, v) \<in> set (concat (map (\<lambda>(r, d). map (\<lambda>(c, x). (r, c, x))
        (inners (store_entry m row col v h) d)) (outers (store_entry m row col v h) m)))"
proof (cases "dict_get (outers h m) row")
  case None
  then show ?thesis by (simp add: store_entry_new)
next
  case (Some d)
  then have "(row, d) \<in> set (outers h m)" by (rule dict_get_SomeD)
  moreover have "(col, v) \<in> set (dict_set (inners h d) col v)" by (rule dict_set_mem)
  ultimately show ?thesis
    using Some by (force simp add: store_entry_old)
qed

lemma get_element_absent: "\<not> row_has a i j h \<Longrightarrow> get_element a i j h = 0"
  by (auto simp: row_has_def get_element_def lookup2_def dict_get_None [symmetric]
      split: option.splits)

lemma frame_unchanged:
  assumes "allocated h a" and "frame h h'"
  shows "unchanged h h' a"
  using assms by (auto simp: unchanged_def allocated_def frame_def inner_refs_def)

lemma fresh_not_shared:
  assumes a: "allocated h a" and fr: "frame h h'" and r: "fresh h h' r"
  shows "\<not> shares_store h' r a"
proof -
  from a fr have o: "objs h' a = objs h a"
    and m: "outers h' (matrix (objs h a)) = outers h (matrix (objs h a))"
    by (auto simp: allocated_def frame_def)
  from a r o have "matrix (objs h' r) \<noteq> matrix (objs h' a)"
    by (auto simp: allocated_def fresh_def)
  moreover have "inner_refs h' r \<inter> inner_refs h' a = {}"
  proof -
    have "d < n_inners h" if "d \<in> inner_refs h' a" for d
      using that a by (auto simp: inner_refs_def o m allocated_def)
    moreover have "n_inners h \<le> d" if "d \<in> inner_refs h' r" for d
      using that r by (auto simp: inner_refs_def fresh_def)
    ultimately show ?thesis by fastforce
  qed
  ultimately show ?thesis by (simp add: shares_store_def)
qed

lemma example_diff_facts:
  "allocated example_diff 0" "allocated example_diff (Suc 0)"
  "numRows (objs example_diff 0) = 2" "numCols (objs example_diff 0) = 2"
  "numRows (objs example_diff (Suc 0)) = 1" "numCols (objs example_diff (Suc 0)) = 1"
  "get_element 0 1 1 example_diff = 4" "get_element (Suc 0) 1 1 example_diff = 0"
  "\<not> row_has (Suc 0) 1 1 example_diff"
  by (simp_all add: allocated_def get_element_def lookup2_def dict_get_def row_has_def
      example_diff_def)

lemma unchanged_entries:
  assumes "unchanged h h' a"
  shows "entries a h' = entries a h"
proof -
  from assms have o: "objs h' a = objs h a"
    and m: "outers h' (matrix (objs h a)) = outers h (matrix (objs h a))"
    and i: "\<And>d. d \<in> snd ` set (outers h (matrix (objs h a))) \<Longrightarrow> inners h' d = inners h d"
    by (auto simp: unchanged_def inner_refs_def)
  have eq: "map (\<lambda>(row, d). map (\<lambda>(col, value). (row, col, value)) (inners h' d))
            (outers h (matrix (objs h a))) =
        map (\<lambda>(row, d). map (\<lambda>(col, value). (row, col, value)) (inners h d))
            (outers h (matrix (objs h a)))"
    by (rule map_cong) (auto simp: i rev_image_eqI)
  show ?thesis
    unfolding entries_def o m by (rule arg_cong [where f = concat]) (rule eq)
qed

lemma new_resultI:
  assumes "allocated h A" and "allocated h B" and "frame h h'" and "fresh h h' r"
  shows "new_result h h' A B r"
proof -
  have "unchanged h h' A" and "unchanged h h' B"
    using assms by (simp_all add: frame_unchanged)
  moreover from this have "entries A h' = entries A h" and "entries B h' = entries B h"
    by (simp_all add: unchanged_entries)
  moreover have "\<not> shares_store h' r A" and "\<not> shares_store h' r B"
    using assms by (simp_all add: fresh_not_shared)
  moreover have "n_objs h \<le> r" and "r < n_objs h'"
    using assms(4) by (simp_all add: fresh_def)
  ultimately show ?thesis by (simp add: new_result_def)
qed


section \<open>Loading: equations without local bindings, and evaluation\<close>

lemma load_matrix_eq:
  "load_matrix self p h =
     (case files h p of
        None \<Rightarrow> (Inl (FormatError OSError),
                  h\<lparr>outers := (outers h)(n_outers h := []), n_outers := Suc (n_outers h)\<rparr>)
      | Some text \<Rightarrow>
          (case header_int (fst (readline (file_lines text))) of
             Inl c \<Rightarrow> (Inl (FormatError c),
                  h\<lparr>outers := (outers h)(n_outers h := []), n_outers := Suc (n_outers h)\<rparr>)
           | Inr rows \<Rightarrow>
               (case header_int (fst (readline (snd (readline (file_lines text))))) of
                  Inl c \<Rightarrow> (Inl (FormatError c),
                     h\<lparr>outers := (outers h)(n_outers h := []), n_outers := Suc (n_outers h)\<rparr>)
                | Inr cols \<Rightarrow>
                    load_entries (n_outers h) (snd (readline (snd (readline (file_lines text)))))
                      (h\<lparr>outers := (outers h)(n_outers h := []), n_outers := Suc (n_outers h),
                         objs := (objs h)(self := (objs h self)\<lparr>numRows := rows, numCols := cols\<rparr>)\<rparr>))))"
  by (simp add: load_matrix_def new_outer_def split: option.splits sum.splits prod.splits)

lemma SparseMatrix_upd_all:
  "r\<lparr>matrix := m, numRows := a, numCols := b\<rparr> = \<lparr>matrix = m, numRows = a, numCols = b\<rparr>"
  by (cases r) simp

lemma construct_file_eq:
  "construct_file p h =
     (case load_matrix (n_objs h) p
             (h\<lparr>objs := (objs h)(n_objs h := \<lparr>matrix = 0, numRows = 0, numCols = 0\<rparr>),
                n_objs := Suc (n_objs h)\<rparr>) of
        (Inl e, h2) \<Rightarrow> (Inl e, h2)
      | (Inr m, h2) \<Rightarrow>
          (Inr (n_objs h),
           h2\<lparr>objs := (objs h2)(n_objs h :=
                  \<lparr>matrix = m, numRows = lookup2 m 0 0 h2, numCols = lookup2 m 0 1 h2\<rparr>)\<rparr>))"
proof -
  obtain res h2 where l: "load_matrix (n_objs h) p
             (h\<lparr>objs := (objs h)(n_objs h := \<lparr>matrix = 0, numRows = 0, numCols = 0\<rparr>),
                n_objs := Suc (n_objs h)\<rparr>) = (res, h2)"
    by (cases "load_matrix (n_objs h) p
             (h\<lparr>objs := (objs h)(n_objs h := \<lparr>matrix = 0, numRows = 0, numCols = 0\<rparr>),
                n_objs := Suc (n_objs h)\<rparr>)")
  show ?thesis
  proof (cases res)
    case (Inl e)
    then show ?thesis by (simp add: construct_file_def new_obj_def l)
  next
    case (Inr m)
    then show ?thesis
      by (simp add: construct_file_def new_obj_def l lookup2_def Let_def SparseMatrix_upd_all
          cong: option.case_cong)
  qed
qed

lemma add_eq:
  "add A B h =
     (n_objs h,
      fold (\<lambda>row h1.
              fold (\<lambda>col h2.
                      set_element (n_objs h) row col
                        (get_element A row col h2 + get_element B row col h2) h2)
                   (py_range (numCols (objs h1 A))) h1)
           (py_range (numRows (objs (snd (construct_dims (numRows (objs h A)) (numCols (objs h A)) h)) A)))
           (snd (construct_dims (numRows (objs h A)) (numCols (objs h A)) h)))"
  by (simp add: add_def construct_dims_eq)

lemma py_range_simps: "py_range 0 = []" "py_range 1 = [0]" "py_range 2 = [0, 1]"
  by (simp_all add: py_range_def upto_rec1)

lemma text_A_lines:
  "file_lines text_A = [''rows=2\<newline>'', ''cols=2\<newline>'', ''(0,0,1)\<newline>'',
     ''(0,1,2)\<newline>'', ''(1,0,3)\<newline>'', ''(1,1,4)\<newline>'']"
  by (simp add: text_A_def)

lemma text_B_lines:
  "file_lines text_B = [''rows=2\<newline>'', ''cols=2\<newline>'', ''(0,0,5)\<newline>'', ''(1,1,6)\<newline>'']"
  by (simp add: text_B_def)

lemmas parse_defs = parse_entry_def
  strip_def slice_1_m1_def str_isspace_def py_int_def int_isspace_def int_unsigned_def
  max_str_digits_def
  is_digit_def digit_value_def header_int_def

lemma parse_lines:
  "header_int ''rows=2\<newline>'' = Inr 2"
  "header_int ''cols=2\<newline>'' = Inr 2"
  "parse_entry ''(0,0,1)\<newline>'' = Inr (0, 0, 1)"
  "parse_entry ''(0,1,2)\<newline>'' = Inr (0, 1, 2)"
  "parse_entry ''(1,0,3)\<newline>'' = Inr (1, 0, 3)"
  "parse_entry ''(1,1,4)\<newline>'' = Inr (1, 1, 4)"
  "parse_entry ''(0,0,5)\<newline>'' = Inr (0, 0, 5)"
  "parse_entry ''(1,1,6)\<newline>'' = Inr (1, 1, 6)"
  by (simp_all add: parse_defs)

lemma strip_lines:
  "strip ''(0,0,1)\<newline>'' \<noteq> []"
  "strip ''(0,1,2)\<newline>'' \<noteq> []"
  "strip ''(1,0,3)\<newline>'' \<noteq> []"
  "strip ''(1,1,4)\<newline>'' \<noteq> []"
  "strip ''(0,0,5)\<newline>'' \<noteq> []"
  "strip ''(1,1,6)\<newline>'' \<noteq> []"
  by (simp_all add: strip_def str_isspace_def)

lemmas file_eval = construct_file_eq load_matrix_eq readline_def py_range_simps
  text_A_lines text_B_lines parse_lines strip_lines

lemma load_A: "construct_file ''A.txt'' disk = (Inr 0, heap_A)"
  by (simp add: heap_eval file_eval disk_def empty_heap_def heap_A_def)

lemma load_B: "construct_file ''B.txt'' heap_A = (Inr (Suc 0), heap_AB)"
  by (simp add: heap_eval file_eval heap_A_def heap_AB_def eval_nat_numeral)

lemma heap_AB_sum:
  "fst (add 0 (Suc 0) heap_AB) = 2"
  "objs (snd (add 0 (Suc 0) heap_AB)) 2 = \<lparr>matrix = 2, numRows = 1, numCols = 2\<rparr>"
  "entries 2 (snd (add 0 (Suc 0) heap_AB)) = [(0, 0, 6), (0, 1, 2)]"
  by (simp_all add: add_eq heap_eval file_eval heap_AB_def)

lemma init_file: "p \<noteq> [] \<Longrightarrow> SparseMatrix_init (Some p) r c h = construct_file p h"
  by (simp add: SparseMatrix_init_def)

lemma str_int_digits: "str_int 2 = ''2''" "str_int 0 = ''0''" "str_int 1 = ''1''"
  "str_int 5 = ''5''" "str_int 7 = ''7''"
  by (simp_all add: str_int_def str_nat.simps [of 2] str_nat.simps [of 0] str_nat.simps [of "Suc 0"]
      str_nat.simps [of 5] str_nat.simps [of 7] digit_char_def)

lemma py_str_digits: "py_str 2 = Some ''2''" "py_str 0 = Some ''0''" "py_str 1 = Some ''1''"
  "py_str 5 = Some ''5''" "py_str 7 = Some ''7''"
  by (simp_all add: py_str_def str_fits_def max_str_digits_def str_int_digits
      str_nat.simps [of 2] str_nat.simps [of 0] str_nat.simps [of "Suc 0"]
      str_nat.simps [of 5] str_nat.simps [of 7])

lemma heap_M_text:
  "write_lines (header_text ''rows'' (numRows (objs heap_M 0)) #
                header_text ''cols'' (numCols (objs heap_M 0)) #
                map entry_text (entries 0 heap_M)) [] =
     (Inr (), ''rows=2\<newline>cols=2\<newline>(0, 0, 7)\<newline>(1, 1, 5)\<newline>'')"
  by (simp add: header_text_def entry_text_def entries_def py_str_digits heap_M_def)

lemma saved_lines:
  "file_lines ''rows=2\<newline>cols=2\<newline>(0, 0, 7)\<newline>(1, 1, 5)\<newline>'' =
     [''rows=2\<newline>'', ''cols=2\<newline>'', ''(0, 0, 7)\<newline>'', ''(1, 1, 5)\<newline>'']"
  by simp

lemma saved_parse:
  "parse_entry ''(0, 0, 7)\<newline>'' = Inr (0, 0, 7)"
  "parse_entry ''(1, 1, 5)\<newline>'' = Inr (1, 1, 5)"
  "strip ''(0, 0, 7)\<newline>'' \<noteq> []"
  "strip ''(1, 1, 5)\<newline>'' \<noteq> []"
  by (simp_all add: parse_defs)

lemma save_M: "save_to_file 0 ''out.txt'' heap_M = (Inr (), heap_saved)"
proof -
  have "save_to_file 0 ''out.txt'' heap_M =
        (Inr (), heap_M\<lparr>files := (files heap_M)
          (''out.txt'' \<mapsto> ''rows=2\<newline>cols=2\<newline>(0, 0, 7)\<newline>(1, 1, 5)\<newline>'')\<rparr>)"
    by (simp add: save_to_file_def heap_M_text)
  also have "\<dots> = (Inr (), heap_saved)"
    by (simp add: heap_M_def heap_saved_def)
  finally show ?thesis .
qed

lemma reloaded_eval:
  "fst reloaded = Inr (Suc 0)"
  "objs (snd reloaded) (Suc 0) = \<lparr>matrix = Suc 0, numRows = 7, numCols = 0\<rparr>"
  "entries (Suc 0) (snd reloaded) = [(0, 0, 7), (1, 1, 5)]"
  by (simp_all add: reloaded_def init_file save_M saved_lines saved_parse
      heap_eval file_eval heap_saved_def del: file_lines.simps)

lemma four_lines:
  "file_lines text_four = [''rows=1\<newline>'', ''cols=1\<newline>'', ''(0,0,5,9)\<newline>'']"
  "file_lines text_short = [''rows=1\<newline>'', ''cols=1\<newline>'', ''(0,0)\<newline>'']"
  by (simp_all add: text_four_def text_short_def)

lemma four_parse:
  "header_int ''rows=1\<newline>'' = Inr 1"
  "header_int ''cols=1\<newline>'' = Inr 1"
  "parse_entry ''(0,0,5,9)\<newline>'' = Inr (0, 0, 5)"
  "strip ''(0,0,5,9)\<newline>'' \<noteq> []"
  "parse_entry ''(0,0)\<newline>'' = Inl IndexError"
  "strip ''(0,0)\<newline>'' \<noteq> []"
  by (simp_all add: parse_defs)

lemma four_eval:
  "fst (construct_file ''four.txt'' disk_four) = Inr 0"
  "entries 0 (snd (construct_file ''four.txt'' disk_four)) = [(0, 0, 5)]"
  "fst (construct_file ''short.txt'' disk_four) = Inl (FormatError IndexError)"
  by (simp_all add: four_lines four_parse heap_eval file_eval disk_four_def empty_heap_def)

lemma header_int_outcome:
  "if header_ok l then \<exists>n. header_int l = Inr n else \<exists>c. header_int l = Inl c"
  by (auto simp: header_ok_def header_int_def split: list.splits option.splits)

lemma parse_entry_outcome:
  "if entry_ok l then \<exists>e. parse_entry l = Inr e else \<exists>c. parse_entry l = Inl c"
  by (auto simp: entry_ok_def parse_entry_def split: list.splits option.splits)

lemma load_entries_outcome:
  "if list_all (\<lambda>l. strip l = [] \<or> entry_ok l) ls
   then fst (load_entries m ls h) = Inr m
   else (\<exists>c. fst (load_entries m ls h) = Inl (FormatError c))"
proof (induction ls arbitrary: h)
  case Nil
  then show ?case by simp
next
  case (Cons l ls)
  show ?case
  proof (cases "strip l = []")
    case True
    then show ?thesis using Cons.IH [of h] by simp
  next
    case False
    show ?thesis
    proof (cases "entry_ok l")
      case True
      then obtain row col v where "parse_entry l = Inr (row, col, v)"
        using parse_entry_outcome [of l] by (auto simp: prod_cases3)
      then show ?thesis
        using False True Cons.IH [of "store_entry m row col v h"] by simp
    next
      case ne: False
      then obtain c where "parse_entry l = Inl c"
        using parse_entry_outcome [of l] by auto
      then show ?thesis using False ne by simp
    qed
  qed
qed

lemma lookup2_objs: "lookup2 m i j (h\<lparr>objs := f\<rparr>) = lookup2 m i j h"
  by (simp add: lookup2_def cong: option.case_cong)

lemma row_has_entry:
  assumes "row_has a i j h"
  shows "(i, j, get_element a i j h) \<in> set (entries a h)"
proof -
  from assms obtain d where d: "dict_get (outers h (matrix (objs h a))) i = Some d"
    and j: "j \<in> set (dict_keys (inners h d))"
    by (auto simp: row_has_def split: option.splits)
  from j obtain v where v: "dict_get (inners h d) j = Some v"
    by (cases "dict_get (inners h d) j") (simp_all add: dict_get_None)
  have "(i, d) \<in> set (outers h (matrix (objs h a)))" using d by (rule dict_get_SomeD)
  moreover have "(j, v) \<in> set (inners h d)" using v by (rule dict_get_SomeD)
  moreover have "get_element a i j h = v"
    by (simp add: get_element_def lookup2_def d v)
  ultimately show ?thesis by (force simp: entries_def)
qed


section \<open>Every matrix the class builds is valid\<close>

lemma fresh_valid: "fresh h h' r \<Longrightarrow> valid h' r"
  by (auto simp: valid_def allocated_def rows_ok_def fresh_def)

lemma valid_construct_dims: "construct_dims r c h = (a, h') \<Longrightarrow> valid h' a"
  by (rule fresh_valid) (rule construct_dims_frame(2))

lemma allocated_store_entry:
  assumes "allocated h b"
  shows "allocated (store_entry m row col v h) b"
proof (cases "dict_get (outers h m) row")
  case None
  with assms show ?thesis
    by (auto simp: store_entry_new allocated_def less_Suc_eq)
next
  case (Some d)
  with assms show ?thesis
    by (simp add: store_entry_old allocated_def)
qed

lemma valid_set_element:
  assumes "valid h a"
  shows "valid (set_element a row col v h) a"
  using assms allocated_store_entry [of h a "matrix (objs h a)" row col v]
    rows_ok_store_entry [of h "matrix (objs h a)" row col v]
  by (simp add: valid_def set_element_def objs_store_entry)

lemma n_outers_store_entry: "n_outers (store_entry m row col v h) = n_outers h"
  by (cases "dict_get (outers h m) row") (simp_all add: store_entry_new store_entry_old)

lemma n_objs_store_entry: "n_objs (store_entry m row col v h) = n_objs h"
  by (cases "dict_get (outers h m) row") (simp_all add: store_entry_new store_entry_old)

lemma load_entries_inv:
  assumes "load_entries m ls h = (Inr m', h')" and "rows_ok h m"
  shows "m' = m \<and> rows_ok h' m \<and> objs h' = objs h \<and> n_outers h' = n_outers h \<and>
         n_objs h' = n_objs h"
  using assms
proof (induction ls arbitrary: h)
  case Nil
  then show ?case by simp
next
  case (Cons l ls)
  show ?case
  proof (cases "strip l = []")
    case True
    with Cons show ?thesis by simp
  next
    case False
    with Cons.prems(1) obtain row col v where p: "parse_entry l = Inr (row, col, v)"
      and rest: "load_entries m ls (store_entry m row col v h) = (Inr m', h')"
      by (auto split: sum.splits)
    have "rows_ok (store_entry m row col v h) m"
      using Cons.prems(2) by (rule rows_ok_store_entry)
    from Cons.IH [OF rest this] show ?thesis
      by (simp add: objs_store_entry n_outers_store_entry n_objs_store_entry)
  qed
qed

lemma rows_ok_objs: "rows_ok (h\<lparr>objs := f\<rparr>) m = rows_ok h m"
  by (simp add: rows_ok_def)

lemma load_matrix_inv:
  assumes "load_matrix self p h = (Inr m, h')"
  shows "m = n_outers h \<and> rows_ok h' m \<and> n_outers h' = Suc (n_outers h) \<and> n_objs h' = n_objs h"
proof -
  from assms obtain ls h1 where l: "load_entries (n_outers h) ls h1 = (Inr m, h')"
    and h1: "outers h1 (n_outers h) = []" "n_outers h1 = Suc (n_outers h)" "n_objs h1 = n_objs h"
    by (auto simp: load_matrix_eq split: option.splits sum.splits)
  have "rows_ok h1 (n_outers h)" by (simp add: rows_ok_def h1)
  from load_entries_inv [OF l this] h1 show ?thesis by simp
qed

lemma valid_construct_file:
  assumes "construct_file p h = (Inr a, h')"
  shows "valid h' a"
proof -
  obtain res h2 where l: "load_matrix (n_objs h) p
             (h\<lparr>objs := (objs h)(n_objs h := \<lparr>matrix = 0, numRows = 0, numCols = 0\<rparr>),
                n_objs := Suc (n_objs h)\<rparr>) = (res, h2)"
    by (cases "load_matrix (n_objs h) p
             (h\<lparr>objs := (objs h)(n_objs h := \<lparr>matrix = 0, numRows = 0, numCols = 0\<rparr>),
                n_objs := Suc (n_objs h)\<rparr>)")
  from assms obtain m where res: "res = Inr m" and a: "a = n_objs h"
    and h': "h' = h2\<lparr>objs := (objs h2)(n_objs h :=
                  \<lparr>matrix = m, numRows = lookup2 m 0 0 h2, numCols = lookup2 m 0 1 h2\<rparr>)\<rparr>"
    by (cases res) (auto simp: construct_file_eq l)
  from load_matrix_inv [OF l [unfolded res]]
  have "rows_ok h2 m \<and> m < n_outers h2 \<and> n_objs h2 = Suc (n_objs h)" by auto
  then show ?thesis
    by (auto simp: valid_def allocated_def a h' rows_ok_def)
qed

lemma valid_results:
  "allocated h A \<Longrightarrow> allocated h B \<Longrightarrow> add A B h = (r, h') \<Longrightarrow> valid h' r"
  "allocated h A \<Longrightarrow> allocated h B \<Longrightarrow> subtract A B h = (r, h') \<Longrightarrow> valid h' r"
  "multiply A B h = (Inr r, h') \<Longrightarrow> valid h' r"
  by (auto intro: fresh_valid add_result(2) subtract_result(2) multiply_result(2))

lemma valid_operands:
  assumes "valid h a" and "frame h h'"
  shows "valid h' a"
  using assms
  by (auto simp: valid_def allocated_def rows_ok_def frame_def)

lemma load_matrix_header_dims:
  assumes "load_matrix self p h = (Inr m, h')" and "self < n_objs h"
  shows "\<exists>content. files h p = Some content \<and>
           header_int (fst (readline (file_lines content))) = Inr (numRows (objs h' self)) \<and>
           header_int (fst (readline (snd (readline (file_lines content))))) =
             Inr (numCols (objs h' self))"
proof -
  from assms(1) obtain content rows cols where f: "files h p = Some content"
    and r: "header_int (fst (readline (file_lines content))) = Inr rows"
    and c: "header_int (fst (readline (snd (readline (file_lines content))))) = Inr cols"
    and l: "load_entries (n_outers h) (snd (readline (snd (readline (file_lines content)))))
              (h\<lparr>outers := (outers h)(n_outers h := []), n_outers := Suc (n_outers h),
                 objs := (objs h)(self := (objs h self)\<lparr>numRows := rows, numCols := cols\<rparr>)\<rparr>) =
            (Inr m, h')"
    by (auto simp: load_matrix_eq split: option.splits sum.splits)
  have "rows_ok (h\<lparr>outers := (outers h)(n_outers h := []), n_outers := Suc (n_outers h),
                 objs := (objs h)(self := (objs h self)\<lparr>numRows := rows, numCols := cols\<rparr>)\<rparr>)
          (n_outers h)"
    by (simp add: rows_ok_def)
  from load_entries_inv [OF l this] have "objs h' self = (objs h self)\<lparr>numRows := rows, numCols := cols\<rparr>"
    by simp
  with f r c show ?thesis by simp
qed


section \<open>Printing and parsing integers and lines\<close>

lemma digit_char_digit:
  assumes "d < 10"
  shows "is_digit (digit_char d) \<and> digit_value (digit_char d) = d"
proof -
  from assms have "d = 0 \<or> d = 1 \<or> d = 2 \<or> d = 3 \<or> d = 4 \<or> d = 5 \<or> d = 6 \<or> d = 7 \<or> d = 8 \<or> d = 9"
    by arith
  then show ?thesis
    by (elim disjE) (simp_all add: digit_char_def is_digit_def digit_value_def)
qed

lemma is_digit_not_special:
  assumes "is_digit c"
  shows "c \<noteq> CHR ''-''" "c \<noteq> CHR ''+''" "c \<noteq> CHR ''_''" "c \<noteq> CHR '',''" "c \<noteq> CHR ''=''"
    "c \<noteq> CHR 0x0A" "\<not> int_isspace c" "\<not> str_isspace c"
  using assms by (auto simp: is_digit_def int_isspace_def str_isspace_def)

lemma int_digits_all:
  "list_all is_digit ds \<Longrightarrow>
   int_digits acc ds = Some (foldl (\<lambda>a c. 10 * a + digit_value c) acc ds)"
  by (induction acc ds rule: int_digits.induct) simp_all

lemma str_nat_digits:
  "list_all is_digit (str_nat n) \<and> str_nat n \<noteq> [] \<and>
   foldl (\<lambda>a c. 10 * a + digit_value c) 0 (str_nat n) = n"
proof (induction n rule: str_nat.induct)
  case (1 n)
  show ?case
  proof (cases "n < 10")
    case True
    then show ?thesis
      using digit_char_digit [of n] by (simp add: str_nat.simps [of n])
  next
    case False
    have "n mod 10 < 10" by simp
    from digit_char_digit [OF this] 1 [OF False] False show ?thesis
      by (simp add: str_nat.simps [of n])
  qed
qed

lemma int_unsigned_str_nat:
  assumes "length (str_nat n) \<le> max_str_digits"
  shows "int_unsigned (str_nat n) = Some n"
proof -
  from str_nat_digits [of n] obtain c cs where s: "str_nat n = c # cs"
    by (cases "str_nat n") auto
  with str_nat_digits [of n] have c: "is_digit c" and cs: "list_all is_digit cs"
    and v: "foldl (\<lambda>a c. 10 * a + digit_value c) (digit_value c) cs = n"
    by simp_all
  from cs have f: "filter is_digit cs = cs"
    by (simp add: list_all_iff)
  from assms have len: "\<not> max_str_digits < Suc (length cs)"
    by (simp add: s)
  show ?thesis
    by (simp add: int_unsigned_def s c f len int_digits_all [OF cs] v)
qed

lemma py_str_fits: "str_fits i \<Longrightarrow> py_str i = Some (str_int i)"
  by (simp add: py_str_def)

lemma str_int_chars:
  assumes "c \<in> set (str_int i)"
  shows "is_digit c \<or> c = CHR ''-''"
  using assms str_nat_digits [of "nat i"] str_nat_digits [of "nat (- i)"]
  by (auto simp: str_int_def list_all_iff split: if_splits)

lemma str_int_plain_conj:
  assumes "c \<in> set (str_int i)"
  shows "c \<noteq> CHR '','' \<and> c \<noteq> CHR ''='' \<and> c \<noteq> CHR 0x0A \<and> \<not> int_isspace c \<and> \<not> str_isspace c"
proof -
  from str_int_chars [OF assms] show ?thesis
  proof
    assume "is_digit c"
    then show ?thesis by (simp add: is_digit_not_special)
  next
    assume "c = CHR ''-''"
    then show ?thesis by (simp add: int_isspace_def str_isspace_def)
  qed
qed

lemma str_int_plain:
  assumes "c \<in> set (str_int i)"
  shows "c \<noteq> CHR '',''" "c \<noteq> CHR ''=''" "c \<noteq> CHR 0x0A" "\<not> int_isspace c" "\<not> str_isspace c"
  using str_int_plain_conj [OF assms] by simp_all

lemma str_int_nonempty: "str_int i \<noteq> []"
  using str_nat_digits [of "nat i"] by (simp add: str_int_def)

lemma trim_padded:
  assumes a: "\<forall>x \<in> set a. P x" and b: "\<forall>x \<in> set b. P x"
    and s: "s \<noteq> []" and h: "\<not> P (hd s)" and l: "\<not> P (last s)"
  shows "rev (dropWhile P (rev (dropWhile P (a @ s @ b)))) = s"
proof -
  from s h have 1: "dropWhile P (s @ b) = s @ b"
    by (cases s) simp_all
  from s l have 2: "dropWhile P (rev s) = rev s"
    by (cases s rule: rev_cases) simp_all
  have "dropWhile P (a @ s @ b) = dropWhile P (s @ b)"
    by (rule dropWhile_append2) (use a in simp)
  moreover have "dropWhile P (rev b @ rev s) = dropWhile P (rev s)"
    by (rule dropWhile_append2) (use b in simp)
  ultimately show ?thesis by (simp add: 1 2)
qed

lemma py_int_padded:
  assumes a: "\<forall>x \<in> set a. int_isspace x" and b: "\<forall>x \<in> set b. int_isspace x"
    and fits: "str_fits i"
  shows "py_int (a @ str_int i @ b) = Some i"
proof -
  have h: "\<not> int_isspace (hd (str_int i))" and l: "\<not> int_isspace (last (str_int i))"
    using str_int_nonempty [of i] str_int_plain(4) [of _ i] by simp_all
  have t: "rev (dropWhile int_isspace (rev (dropWhile int_isspace (a @ str_int i @ b)))) = str_int i"
    using a b str_int_nonempty h l by (rule trim_padded)
  show ?thesis
  proof (cases "i < 0")
    case True
    with fits have "length (str_nat (nat (- i))) \<le> max_str_digits"
      by (simp add: str_fits_def abs_if)
    from int_unsigned_str_nat [OF this] True show ?thesis
      by (simp add: py_int_def t) (simp add: str_int_def)
  next
    case False
    from str_nat_digits [of "nat i"] obtain c cs where s: "str_nat (nat i) = c # cs"
      by (cases "str_nat (nat i)") auto
    with str_nat_digits [of "nat i"] have "is_digit c" by simp
    then have "c \<noteq> CHR ''-''" "c \<noteq> CHR ''+''"
      by (simp_all add: is_digit_not_special)
    moreover from fits False have "length (str_nat (nat i)) \<le> max_str_digits"
      by (simp add: str_fits_def abs_if)
    ultimately show ?thesis
      using False int_unsigned_str_nat [of "nat i"]
      by (simp add: py_int_def t) (simp add: str_int_def s)
  qed
qed

lemma str_split_nonempty: "str_split sep s \<noteq> []"
  by (induction s) (auto split: list.splits)

lemma str_split_nosep: "sep \<notin> set s \<Longrightarrow> str_split sep s = [s]"
  by (induction s) auto

lemma str_split_prefix: "sep \<notin> set a \<Longrightarrow> str_split sep (a @ sep # rest) = a # str_split sep rest"
  by (induction a) auto

lemma file_lines_line:
  "CHR 0x0A \<notin> set l \<Longrightarrow> file_lines (l @ CHR 0x0A # rest) = (l @ [CHR 0x0A]) # file_lines rest"
  by (induction l) auto

lemma strip_entry_line:
  "strip (CHR ''('' # body @ '')'' @ [CHR 0x0A]) = CHR ''('' # body @ '')''"
  using trim_padded [of "[]" str_isspace "[CHR 0x0A]" "CHR ''('' # body @ '')''"]
  by (simp add: strip_def str_isspace_def)

lemma split_fields:
  "str_split CHR '','' (str_int r @ '', '' @ str_int c @ '', '' @ str_int v) =
     [str_int r, CHR '' '' # str_int c, CHR '' '' # str_int v]"
proof -
  have r: "CHR '','' \<notin> set (str_int r)" and c: "CHR '','' \<notin> set (CHR '' '' # str_int c)"
    and v: "CHR '','' \<notin> set (CHR '' '' # str_int v)"
    using str_int_plain(1) by auto
  have 3: "str_split CHR '','' (CHR '' '' # str_int v) = [CHR '' '' # str_int v]"
    by (rule str_split_nosep [OF v])
  have eq: "str_int r @ '', '' @ str_int c @ '', '' @ str_int v =
      str_int r @ CHR '','' # ((CHR '' '' # str_int c) @ CHR '','' # (CHR '' '' # str_int v))"
    by simp
  show ?thesis
    unfolding eq by (simp only: str_split_prefix [OF r] str_split_prefix [OF c] 3)
qed

lemma parse_entry_line:
  assumes "str_fits r" and "str_fits c" and "str_fits v"
  shows "parse_entry (entry_line (r, c, v)) = Inr (r, c, v)"
proof -
  have l: "entry_line (r, c, v) =
      CHR ''('' # (str_int r @ '', '' @ str_int c @ '', '' @ str_int v) @ '')'' @ [CHR 0x0A]"
    by (simp add: entry_line_def)
  have sl: "slice_1_m1 (CHR ''('' # (str_int r @ '', '' @ str_int c @ '', '' @ str_int v) @ '')'') =
      str_int r @ '', '' @ str_int c @ '', '' @ str_int v"
    by (simp add: slice_1_m1_def butlast_append)
  have p: "py_int (str_int r) = Some r" "py_int (CHR '' '' # str_int c) = Some c"
    "py_int (CHR '' '' # str_int v) = Some v"
    using py_int_padded [of "[]" "[]" r] py_int_padded [of "'' ''" "[]" c]
      py_int_padded [of "'' ''" "[]" v] assms
    by (simp_all add: int_isspace_def)
  show ?thesis
    unfolding parse_entry_def l strip_entry_line sl split_fields
    by (simp add: p)
qed

lemma strip_entry_line_nonempty: "strip (entry_line e) \<noteq> []"
proof -
  obtain r c v where e: "e = (r, c, v)" by (cases e)
  have l: "entry_line (r, c, v) =
      CHR ''('' # (str_int r @ '', '' @ str_int c @ '', '' @ str_int v) @ '')'' @ [CHR 0x0A]"
    by (simp add: entry_line_def)
  show ?thesis
    unfolding e l strip_entry_line by simp
qed

lemma entry_line_newline:
  "\<exists>l. entry_line e = l @ [CHR 0x0A] \<and> CHR 0x0A \<notin> set l"
proof -
  obtain r c v where e: "e = (r, c, v)" by (cases e)
  have "CHR 0x0A \<notin> set (CHR ''('' # str_int r @ '', '' @ str_int c @ '', '' @ str_int v @ '')'')"
    using str_int_plain(3) by auto
  moreover have "entry_line e =
     (CHR ''('' # str_int r @ '', '' @ str_int c @ '', '' @ str_int v @ '')'') @ [CHR 0x0A]"
    by (simp add: e entry_line_def)
  ultimately show ?thesis by blast
qed

lemma file_lines_entries: "file_lines (concat (map entry_line es)) = map entry_line es"
proof (induction es)
  case Nil
  then show ?case by simp
next
  case (Cons e es)
  from entry_line_newline [of e] obtain l where l: "entry_line e = l @ [CHR 0x0A]"
    and n: "CHR 0x0A \<notin> set l" by blast
  show ?case
    using file_lines_line [OF n, of "concat (map entry_line es)"] Cons.IH
    by (simp add: l)
qed

lemma header_line:
  assumes "CHR ''='' \<notin> set key" and "str_fits n"
  shows "header_int (key @ CHR ''='' # str_int n @ [CHR 0x0A]) = Inr n"
proof -
  have "CHR ''='' \<notin> set (str_int n @ [CHR 0x0A])"
    using str_int_plain(2) by auto
  then have "str_split CHR ''='' (key @ CHR ''='' # (str_int n @ [CHR 0x0A])) =
      [key, str_int n @ [CHR 0x0A]]"
    by (simp add: str_split_prefix [OF assms(1)] str_split_nosep)
  moreover have "py_int (str_int n @ [CHR 0x0A]) = Some n"
    using py_int_padded [of "[]" "[CHR 0x0A]" n] assms(2) by (simp add: int_isspace_def)
  ultimately show ?thesis by (simp add: header_int_def)
qed

lemma file_text_lines:
  "file_lines (file_text a h) =
     (''rows='' @ str_int (numRows (objs h a)) @ [CHR 0x0A]) #
     (''cols='' @ str_int (numCols (objs h a)) @ [CHR 0x0A]) #
     map entry_line (entries a h)"
proof -
  have 1: "CHR 0x0A \<notin> set (''rows='' @ str_int (numRows (objs h a)))"
    and 2: "CHR 0x0A \<notin> set (''cols='' @ str_int (numCols (objs h a)))"
    using str_int_plain(3) by auto
  have "file_text a h =
     (''rows='' @ str_int (numRows (objs h a))) @ CHR 0x0A #
       ((''cols='' @ str_int (numCols (objs h a))) @ CHR 0x0A # concat (map entry_line (entries a h)))"
    by (simp add: file_text_def)
  then show ?thesis
    by (simp only: file_lines_line [OF 1] file_lines_line [OF 2] file_lines_entries) simp
qed

lemma load_entries_lines:
  assumes "list_all (\<lambda>(r, c, v). str_fits r \<and> str_fits c \<and> str_fits v) es"
  shows "load_entries m (map entry_line es) h =
     (Inr m, fold (\<lambda>(r, c, v). store_entry m r c v) es h)"
  using assms
proof (induction es arbitrary: h)
  case Nil
  then show ?case by simp
next
  case (Cons e es)
  obtain r c v where e: "e = (r, c, v)" by (cases e)
  from Cons.prems have f: "str_fits r" "str_fits c" "str_fits v"
    and rest: "list_all (\<lambda>(r, c, v). str_fits r \<and> str_fits c \<and> str_fits v) es"
    by (simp_all add: e)
  show ?case
    using Cons.IH [OF rest, of "store_entry m r c v h"]
    by (simp add: e parse_entry_line [OF f] strip_entry_line_nonempty)
qed

lemma write_lines_all:
  "write_lines (map Some ls) written = (Inr (), written @ concat ls)"
  by (induction ls arbitrary: written) simp_all

lemma entry_text_fits:
  assumes "list_all (\<lambda>(r, c, v). str_fits r \<and> str_fits c \<and> str_fits v) es"
  shows "map entry_text es = map Some (map entry_line es)"
  using assms
  by (induction es) (auto simp: entry_text_def entry_line_def py_str_fits)

lemma save_fits:
  assumes "fits_all h a"
  shows "save_to_file a p h = (Inr (), h\<lparr>files := (files h)(p \<mapsto> file_text a h)\<rparr>)"
proof -
  from assms have r: "header_text ''rows'' (numRows (objs h a)) =
      Some (''rows='' @ str_int (numRows (objs h a)) @ [CHR 0x0A])"
    and c: "header_text ''cols'' (numCols (objs h a)) =
      Some (''cols='' @ str_int (numCols (objs h a)) @ [CHR 0x0A])"
    and e: "map entry_text (entries a h) = map Some (map entry_line (entries a h))"
    by (simp_all add: fits_all_def header_text_def py_str_fits entry_text_fits)
  have "write_lines (header_text ''rows'' (numRows (objs h a)) #
                     header_text ''cols'' (numCols (objs h a)) #
                     map entry_text (entries a h)) [] = (Inr (), file_text a h)"
    unfolding r c e by (simp add: write_lines_all file_text_def del: map_map)
  then show ?thesis by (simp add: save_to_file_def)
qed

section \<open>Save followed by load\<close>

lemma dict_get_mem:
  "distinct (dict_keys d) \<Longrightarrow> (k, v) \<in> set d \<Longrightarrow> dict_get d k = Some v"
  by (simp add: dict_get_def dict_keys_def)

lemma entries_iff:
  assumes "dict_ok h a"
  shows "(i, j, v) \<in> set (entries a h) \<longleftrightarrow> row_has a i j h \<and> get_element a i j h = v"
proof
  assume "(i, j, v) \<in> set (entries a h)"
  then obtain d where d: "(i, d) \<in> set (outers h (matrix (objs h a)))"
    and v: "(j, v) \<in> set (inners h d)"
    by (auto simp: entries_def)
  from d have "d \<in> inner_refs h a" by (force simp: inner_refs_def)
  with assms have dd: "distinct (dict_keys (inners h d))" by (simp add: dict_ok_def)
  from assms d have 1: "dict_get (outers h (matrix (objs h a))) i = Some d"
    by (simp add: dict_ok_def dict_get_mem)
  from dd v have 2: "dict_get (inners h d) j = Some v" by (rule dict_get_mem)
  from v have "j \<in> set (dict_keys (inners h d))" by (force simp: dict_keys_def)
  then show "row_has a i j h \<and> get_element a i j h = v"
    by (simp add: row_has_def get_element_def lookup2_def 1 2)
next
  assume "row_has a i j h \<and> get_element a i j h = v"
  then show "(i, j, v) \<in> set (entries a h)"
    using row_has_entry [of a i j h] by auto
qed

lemma fold_store_untouched:
  assumes "rows_ok h m" and "(i, j) \<notin> set (map (\<lambda>(r, c, v). (r, c)) es)"
  shows "lookup2 m i j (fold (\<lambda>(r, c, v). store_entry m r c v) es h) = lookup2 m i j h \<and>
         has2 m i j (fold (\<lambda>(r, c, v). store_entry m r c v) es h) = has2 m i j h"
  using assms
proof (induction es arbitrary: h)
  case Nil
  then show ?case by simp
next
  case (Cons e es)
  obtain r c v where e: "e = (r, c, v)" by (cases e)
  from Cons.prems(2) have ne: "i \<noteq> r \<or> j \<noteq> c" and rest: "(i, j) \<notin> set (map (\<lambda>(r, c, v). (r, c)) es)"
    by (auto simp: e)
  have ok: "rows_ok (store_entry m r c v h) m"
    using Cons.prems(1) by (rule rows_ok_store_entry)
  from Cons.IH [OF ok rest] show ?case
    using lookup2_store_other [OF Cons.prems(1) ne, of v] has2_store [OF Cons.prems(1), of i j r c v] ne
    by (auto simp: e)
qed

lemma fold_store_member:
  assumes "rows_ok h m" and "distinct (map (\<lambda>(r, c, v). (r, c)) es)" and "(i, j, x) \<in> set es"
  shows "lookup2 m i j (fold (\<lambda>(r, c, v). store_entry m r c v) es h) = x \<and>
         has2 m i j (fold (\<lambda>(r, c, v). store_entry m r c v) es h)"
  using assms
proof (induction es arbitrary: h)
  case Nil
  then show ?case by simp
next
  case (Cons e es)
  obtain r c v where e: "e = (r, c, v)" by (cases e)
  have ok: "rows_ok (store_entry m r c v h) m"
    using Cons.prems(1) by (rule rows_ok_store_entry)
  from Cons.prems(2) have d: "distinct (map (\<lambda>(r, c, v). (r, c)) es)"
    and fresh: "(r, c) \<notin> set (map (\<lambda>(r, c, v). (r, c)) es)"
    by (simp_all add: e)
  show ?case
  proof (cases "(i, j, x) = e")
    case True
    then have "i = r" "j = c" "x = v" by (simp_all add: e)
    with fold_store_untouched [OF ok fresh] show ?thesis
      using has2_store [OF Cons.prems(1), of r c r c v]
      by (simp add: e lookup2_store_same)
  next
    case False
    with Cons.prems(3) have "(i, j, x) \<in> set es" by simp
    from Cons.IH [OF ok d this] show ?thesis by (simp add: e)
  qed
qed

lemma positions_distinct:
  assumes o: "distinct (map fst os)" and i: "\<forall>d \<in> snd ` set os. distinct (map fst (f d))"
  shows "distinct (map (\<lambda>(r, c, v). (r, c))
           (concat (map (\<lambda>(row, d). map (\<lambda>(col, value). (row, col, value)) (f d)) os)))"
  using assms
proof (induction os)
  case Nil
  then show ?case by simp
next
  case (Cons p os)
  obtain r d where p: "p = (r, d)" by (cases p)
  let ?row = "map (\<lambda>(r, c, v). (r, c)) (map (\<lambda>(col, value). (r, col, value)) (f d))"
  let ?rest = "map (\<lambda>(r, c, v). (r, c))
           (concat (map (\<lambda>(row, d). map (\<lambda>(col, value). (row, col, value)) (f d)) os))"
  from Cons.prems have r: "r \<notin> fst ` set os" and dd: "distinct (map fst (f d))"
    by (auto simp: p)
  have 1: "?row = map (\<lambda>c. (r, c)) (map fst (f d))"
    by (simp add: case_prod_unfold)
  have 2: "distinct ?row"
    unfolding 1 using dd by (simp add: distinct_map inj_on_def)
  have 3: "fst ` set ?rest \<subseteq> fst ` set os"
    by force
  have 4: "fst ` set ?row \<subseteq> {r}"
    unfolding 1 by auto
  have 5: "set ?row \<inter> set ?rest = {}"
  proof (rule ccontr)
    assume "set ?row \<inter> set ?rest \<noteq> {}"
    then obtain x where "x \<in> set ?row" and "x \<in> set ?rest" by blast
    then have "fst x \<in> fst ` set ?row" and "fst x \<in> fst ` set ?rest" by blast+
    with 3 4 r show False by blast
  qed
  from Cons.IH Cons.prems have IH: "distinct ?rest"
    by (simp add: p)
  have "map (\<lambda>(r, c, v). (r, c))
           (concat (map (\<lambda>(row, d). map (\<lambda>(col, value). (row, col, value)) (f d)) (p # os))) =
        ?row @ ?rest"
    by (simp add: p)
  then show ?case
    using IH 2 5 by (simp only: distinct_append)
qed

lemma entries_positions_distinct:
  assumes "dict_ok h a"
  shows "distinct (map (\<lambda>(r, c, v). (r, c)) (entries a h))"
  unfolding entries_def
  using assms by (intro positions_distinct) (auto simp: dict_ok_def dict_keys_def inner_refs_def)

lemma header_lines:
  assumes "str_fits n"
  shows "header_int (''rows='' @ str_int n @ [CHR 0x0A]) = Inr n"
    and "header_int (''cols='' @ str_int n @ [CHR 0x0A]) = Inr n"
  using header_line [of "''rows''" n] header_line [of "''cols''" n] assms by simp_all

lemma has2_objs: "has2 m i j (h\<lparr>objs := f\<rparr>) = has2 m i j h"
  by (simp add: has2_def cong: option.case_cong)

lemma load_saved:
  assumes ok: "dict_ok h a" and fits: "fits_all h a"
  shows "\<exists>h'. load_matrix self p (snd (save_to_file a p h)) = (Inr (n_outers h), h') \<and>
           objs h' self =
             (objs h self)\<lparr>numRows := numRows (objs h a), numCols := numCols (objs h a)\<rparr> \<and>
           n_outers h' = Suc (n_outers h) \<and> n_objs h' = n_objs h \<and>
           rows_ok h' (n_outers h) \<and>
           (\<forall>i j. lookup2 (n_outers h) i j h' = get_element a i j h \<and>
                  has2 (n_outers h) i j h' = row_has a i j h)"
proof -
  let ?m = "n_outers h"
  let ?hs = "h\<lparr>files := (files h)(p \<mapsto> file_text a h)\<rparr>"
  let ?h1 = "?hs\<lparr>outers := (outers ?hs)(?m := []), n_outers := Suc ?m,
      objs := (objs ?hs)(self := (objs ?hs self)
        \<lparr>numRows := numRows (objs h a), numCols := numCols (objs h a)\<rparr>)\<rparr>"
  let ?h' = "fold (\<lambda>(r, c, v). store_entry ?m r c v) (entries a h) ?h1"
  have sv: "snd (save_to_file a p h) = ?hs"
    by (simp add: save_fits [OF fits])
  from fits have fr: "str_fits (numRows (objs h a))" and fc: "str_fits (numCols (objs h a))"
    and fe: "list_all (\<lambda>(r, c, v). str_fits r \<and> str_fits c \<and> str_fits v) (entries a h)"
    by (simp_all add: fits_all_def)
  have hs: "files ?hs p = Some (file_text a h)" "n_outers ?hs = ?m" "objs ?hs = objs h"
    "n_objs ?hs = n_objs h"
    by simp_all
  have load: "load_matrix self p ?hs = (Inr ?m, ?h')"
    by (simp add: load_matrix_eq file_text_lines readline_def
        header_lines(1) [OF fr, simplified] header_lines(2) [OF fc, simplified]
        load_entries_lines [OF fe])
  have ok1: "rows_ok ?h1 ?m"
    by (simp add: rows_ok_def)
  have e1: "lookup2 ?m i j ?h1 = 0" "\<not> has2 ?m i j ?h1" for i j
    by (simp_all add: lookup2_def has2_def dict_get_Nil)
  note inv = load_entries_inv [OF load_entries_lines [OF fe] ok1]
  have cell: "lookup2 ?m i j ?h' = get_element a i j h \<and> has2 ?m i j ?h' = row_has a i j h" for i j
  proof (cases "row_has a i j h")
    case True
    then have "(i, j, get_element a i j h) \<in> set (entries a h)" by (rule row_has_entry)
    from fold_store_member [OF ok1 entries_positions_distinct [OF ok] this] True
    show ?thesis by simp
  next
    case False
    then have "(i, j) \<notin> set (map (\<lambda>(r, c, v). (r, c)) (entries a h))"
      using entries_iff [OF ok] by auto
    from fold_store_untouched [OF ok1 this] False e1 [of i j] show ?thesis
      by (simp add: get_element_absent)
  qed
  from inv have "objs ?h' self =
             (objs h self)\<lparr>numRows := numRows (objs h a), numCols := numCols (objs h a)\<rparr>"
    and "n_outers ?h' = Suc ?m" and "n_objs ?h' = n_objs h" and "rows_ok ?h' ?m"
    by simp_all
  with load cell show ?thesis unfolding sv by blast
qed

text \<open>
  Saving a matrix whose numbers are within the digit limit succeeds, and constructing a
  matrix from the saved file gives, at every position, the same stored key and the same
  value.  The loader assigns the saved dimensions (\<open>load_saved\<close>); the constructor then
  replaces them by the values at (0,0) and (0,1).
\<close>

lemma save_load_round_trip:
  assumes ok: "dict_ok h a" and a: "a < n_objs h" and p: "p \<noteq> []" and fits: "fits_all h a"
  shows "fst (save_to_file a p h) = Inr () \<and>
         (\<exists>b h'. SparseMatrix_init (Some p) r c (snd (save_to_file a p h)) = (Inr b, h') \<and>
           (\<forall>i j. get_element b i j h' = get_element a i j h \<and>
                  row_has b i j h' = row_has a i j h) \<and>
           numRows (objs h' b) = get_element a 0 0 h \<and>
           numCols (objs h' b) = get_element a 0 1 h)"
proof -
  let ?h0 = "h\<lparr>objs := (objs h)(n_objs h := \<lparr>matrix = 0, numRows = 0, numCols = 0\<rparr>),
                n_objs := Suc (n_objs h)\<rparr>"
  let ?m = "n_outers h"
  let ?hs = "snd (save_to_file a p h)"
  from a have ne: "a \<noteq> n_objs h" by simp
  have en: "entries a ?h0 = entries a h"
    by (simp add: entries_def ne)
  have ft: "file_text a ?h0 = file_text a h"
    by (simp add: file_text_def entries_def ne)
  have g: "get_element a i j ?h0 = get_element a i j h" "row_has a i j ?h0 = row_has a i j h" for i j
    by (simp_all add: get_element_def row_has_def lookup2_def ne cong: option.case_cong)
  have ok0: "dict_ok ?h0 a"
    using ok by (simp add: dict_ok_def inner_refs_def ne)
  have fits0: "fits_all ?h0 a"
    using fits by (simp add: fits_all_def en) (simp add: ne)
  have s1: "fst (save_to_file a p h) = Inr ()" and s2: "?hs = h\<lparr>files := (files h)(p \<mapsto> file_text a h)\<rparr>"
    by (simp_all add: save_fits [OF fits])
  have hs: "?hs\<lparr>objs := (objs ?hs)(n_objs ?hs := \<lparr>matrix = 0, numRows = 0, numCols = 0\<rparr>),
        n_objs := Suc (n_objs ?hs)\<rparr> = snd (save_to_file a p ?h0)"
    by (simp add: s2 save_fits [OF fits0] ft)
  from load_saved [OF ok0 fits0, of "n_objs h" p] obtain h2
    where l: "load_matrix (n_objs h) p (snd (save_to_file a p ?h0)) = (Inr ?m, h2)"
      and cell: "\<And>i j. lookup2 ?m i j h2 = get_element a i j h \<and> has2 ?m i j h2 = row_has a i j h"
    by (auto simp: g)
  let ?h' = "h2\<lparr>objs := (objs h2)(n_objs h :=
                  \<lparr>matrix = ?m, numRows = lookup2 ?m 0 0 h2, numCols = lookup2 ?m 0 1 h2\<rparr>)\<rparr>"
  have no: "n_objs ?hs = n_objs h" by (simp add: s2)
  have "SparseMatrix_init (Some p) r c ?hs = (Inr (n_objs h), ?h')"
    using p by (simp add: init_file construct_file_eq hs [unfolded no] no l)
  moreover have "get_element (n_objs h) i j ?h' = get_element a i j h \<and>
      row_has (n_objs h) i j ?h' = row_has a i j h" for i j
    using cell [of i j] by (simp add: get_element_def row_has_has2 lookup2_objs has2_objs)
  moreover have "numRows (objs ?h' (n_objs h)) = get_element a 0 0 h"
    "numCols (objs ?h' (n_objs h)) = get_element a 0 1 h"
    using cell by simp_all
  ultimately show ?thesis using s1 by blast
qed

lemma dict_ok_construct_dims: "construct_dims r c h = (a, h') \<Longrightarrow> dict_ok h' a"
  by (auto simp: construct_dims_eq dict_ok_def inner_refs_def dict_keys_def)

lemma dict_ok_set_element:
  assumes "dict_ok h a"
  shows "dict_ok (set_element a row col v h) a"
proof (cases "dict_get (outers h (matrix (objs h a))) row")
  case None
  then have "row \<notin> set (dict_keys (outers h (matrix (objs h a))))"
    by (simp add: dict_get_None)
  with assms None show ?thesis
    by (auto simp: set_element_def store_entry_new dict_ok_def inner_refs_def dict_keys_def)
next
  case (Some d)
  then have "(row, d) \<in> set (outers h (matrix (objs h a)))" by (rule dict_get_SomeD)
  then have "d \<in> inner_refs h a" by (force simp: inner_refs_def)
  with assms have "distinct (dict_keys (dict_set (inners h d) col v))"
    by (simp add: dict_ok_def distinct_keys_set)
  with assms Some show ?thesis
    by (auto simp: set_element_def store_entry_old dict_ok_def inner_refs_def)
qed


section \<open>The scenario with the dimensions of the headers\<close>

text \<open>
  On \<open>example_AB\<close>, where both matrices are 2 by 2 as their files declare, the sum and the
  product are the ones the spec's scenario expects.
\<close>

lemma multiply_eq:
  "numCols (objs h A) = numRows (objs h B) \<Longrightarrow>
   multiply A B h =
     (Inr (n_objs h),
      fold (\<lambda>row h1.
              fold (\<lambda>col h2.
                      if row_has A row col h2
                      then set_element (n_objs h) row col (dot A B row col h2) h2
                      else h2)
                   (dict_keys (outers h1 (matrix (objs h1 B)))) h1)
           (dict_keys (outers (snd (construct_dims (numRows (objs h A)) (numCols (objs h B)) h))
              (matrix (objs (snd (construct_dims (numRows (objs h A)) (numCols (objs h B)) h)) A))))
           (snd (construct_dims (numRows (objs h A)) (numCols (objs h B)) h)))"
  by (simp add: multiply_def construct_dims_eq)

lemma example_AB_sum:
  "entries (fst (add 0 (Suc 0) example_AB)) (snd (add 0 (Suc 0) example_AB)) =
     [(0, 0, 6), (0, 1, 2), (1, 0, 3), (1, 1, 10)]"
  by (simp add: add_eq heap_eval py_range_simps example_AB_def)

lemma example_AB_product:
  "fst (multiply 0 (Suc 0) example_AB) = Inr 2"
  "entries 2 (snd (multiply 0 (Suc 0) example_AB)) =
     [(0, 0, 5), (0, 1, 12), (1, 0, 15), (1, 1, 24)]"
  by (simp_all add: multiply_eq heap_eval py_range_simps example_AB_def row_has_def dot_def)


section \<open>The outcome of a load and its effect on the store\<close>

lemma load_entries_objs:
  "objs (snd (load_entries m ls h)) = objs h \<and>
   n_objs (snd (load_entries m ls h)) = n_objs h \<and>
   n_outers (snd (load_entries m ls h)) = n_outers h \<and>
   files (snd (load_entries m ls h)) = files h"
proof (induction ls arbitrary: h)
  case Nil
  then show ?case by simp
next
  case (Cons l ls)
  show ?case
  proof (cases "parse_entry l")
    case (Inl c)
    then show ?thesis using Cons.IH [of h] by simp
  next
    case (Inr e)
    obtain r c v where e: "e = (r, c, v)" by (cases e)
    show ?thesis
      using Cons.IH [of h] Cons.IH [of "store_entry m r c v h"]
      by (simp add: Inr e objs_store_entry n_objs_store_entry n_outers_store_entry
          files_store_entry)
  qed
qed

lemma refs_store_entry:
  assumes "\<forall>d \<in> set (map snd (outers h m)). n0 \<le> d" and "n0 \<le> n_inners h"
  shows "\<forall>d \<in> set (map snd (outers (store_entry m row col v h) m)). n0 \<le> d"
proof (cases "dict_get (outers h m) row")
  case None
  with assms show ?thesis by (auto simp: store_entry_new)
next
  case (Some d)
  with assms show ?thesis by (simp add: store_entry_old)
qed

lemma load_entries_frame:
  assumes "frame h0 h" and "n_outers h0 \<le> m"
    and "\<forall>d \<in> set (map snd (outers h m)). n_inners h0 \<le> d"
  shows "frame h0 (snd (load_entries m ls h))"
  using assms
proof (induction ls arbitrary: h)
  case Nil
  then show ?case by simp
next
  case (Cons l ls)
  show ?case
  proof (cases "parse_entry l")
    case (Inl c)
    then show ?thesis using Cons.IH [of h] Cons.prems by simp
  next
    case (Inr e)
    obtain r c v where e: "e = (r, c, v)" by (cases e)
    have 1: "frame h0 (store_entry m r c v h)"
      using Cons.prems by (rule store_entry_frame)
    from Cons.prems(1) have "n_inners h0 \<le> n_inners h" by (simp add: frame_def)
    with Cons.prems(3)
    have 2: "\<forall>d \<in> set (map snd (outers (store_entry m r c v h) m)). n_inners h0 \<le> d"
      by (rule refs_store_entry)
    show ?thesis
      using Cons.IH [OF Cons.prems] Cons.IH [OF 1 Cons.prems(2) 2]
      by (simp add: Inr e)
  qed
qed

lemma header_int_Nil: "header_int [] = Inl IndexError"
  by (simp add: header_int_def)

lemma load_matrix_start:
  "load_matrix self p h =
     (case read_headers h p of
        None \<Rightarrow> (fst (load_matrix self p h),
                  h\<lparr>outers := (outers h)(n_outers h := []), n_outers := Suc (n_outers h)\<rparr>)
      | Some (rows, cols) \<Rightarrow>
          load_entries (n_outers h) (drop 2 (file_lines (the (files h p))))
            (h\<lparr>outers := (outers h)(n_outers h := []), n_outers := Suc (n_outers h),
               objs := (objs h)(self := (objs h self)\<lparr>numRows := rows, numCols := cols\<rparr>)\<rparr>))"
proof (cases "files h p")
  case None
  then show ?thesis by (simp add: read_headers_def load_matrix_eq)
next
  case (Some content)
  show ?thesis
  proof (cases "file_lines content")
    case Nil
    with Some show ?thesis
      by (simp add: read_headers_def header_values_def load_matrix_eq readline_def header_int_Nil)
  next
    case (Cons l1 rest)
    show ?thesis
    proof (cases rest)
      case Nil
      with Some Cons show ?thesis
        by (simp add: read_headers_def header_values_def load_matrix_eq readline_def
            header_int_Nil split: sum.splits)
    next
      case (Cons l2 ls)
      with Some \<open>file_lines content = l1 # rest\<close> show ?thesis
        by (simp add: read_headers_def header_values_def load_matrix_eq readline_def
            split: sum.splits)
    qed
  qed
qed

lemma load_matrix_objs:
  "objs (snd (load_matrix self p h)) =
     (case read_headers h p of
        None \<Rightarrow> objs h
      | Some (rows, cols) \<Rightarrow> (objs h)(self := (objs h self)\<lparr>numRows := rows, numCols := cols\<rparr>))"
proof (cases "read_headers h p")
  case None
  then show ?thesis by (subst load_matrix_start) simp
next
  case (Some rc)
  then show ?thesis
    by (subst load_matrix_start) (simp add: load_entries_objs split: prod.splits)
qed

lemma load_matrix_kept: "others_kept self h (snd (load_matrix self p h))"
proof (cases "read_headers h p")
  case None
  then have "snd (load_matrix self p h) =
      h\<lparr>outers := (outers h)(n_outers h := []), n_outers := Suc (n_outers h)\<rparr>"
    by (subst load_matrix_start) simp
  then show ?thesis by (simp add: others_kept_def)
next
  case (Some rc)
  obtain rows cols where rc: "rc = (rows, cols)" by (cases rc)
  let ?h0 = "h\<lparr>objs := (objs h)(self := (objs h self)\<lparr>numRows := rows, numCols := cols\<rparr>)\<rparr>"
  let ?h1 = "h\<lparr>outers := (outers h)(n_outers h := []), n_outers := Suc (n_outers h),
               objs := (objs h)(self := (objs h self)\<lparr>numRows := rows, numCols := cols\<rparr>)\<rparr>"
  let ?ls = "drop 2 (file_lines (the (files h p)))"
  have eq: "snd (load_matrix self p h) = snd (load_entries (n_outers h) ?ls ?h1)"
    using Some by (subst load_matrix_start) (simp add: rc)
  have "frame ?h0 ?h1" by (simp add: frame_def)
  then have fr: "frame ?h0 (snd (load_entries (n_outers h) ?ls ?h1))"
    by (rule load_entries_frame) simp_all
  from fr load_entries_objs [of "n_outers h" ?ls ?h1] show ?thesis
    unfolding eq by (simp add: others_kept_def frame_def)
qed

lemma load_entries_ok:
  assumes "list_all (\<lambda>l. strip l = [] \<or> entry_ok l) ls"
  shows "load_entries m ls h =
     (Inr m, fold (\<lambda>(r, c, v). store_entry m r c v) (line_entries ls) h)"
  using assms
proof (induction ls arbitrary: h)
  case Nil
  then show ?case by (simp add: line_entries_def)
next
  case (Cons l ls)
  from Cons.prems have rest: "list_all (\<lambda>l. strip l = [] \<or> entry_ok l) ls" by simp
  show ?case
  proof (cases "strip l = []")
    case True
    then show ?thesis using Cons.IH [OF rest, of h] by (simp add: line_entries_def)
  next
    case False
    with Cons.prems have "entry_ok l" by simp
    then obtain r c v where p: "parse_entry l = Inr (r, c, v)"
      using parse_entry_outcome [of l] by (auto simp: prod_cases3)
    show ?thesis
      using False Cons.IH [OF rest, of "store_entry m r c v h"]
      by (simp add: p line_entries_def)
  qed
qed

lemma fold_store_last:
  assumes "rows_ok h m"
  shows "has2 m i j (fold (\<lambda>(r, c, v). store_entry m r c v) es h) =
           (has2 m i j h \<or> last_value es i j \<noteq> None) \<and>
         lookup2 m i j (fold (\<lambda>(r, c, v). store_entry m r c v) es h) =
           (case last_value es i j of None \<Rightarrow> lookup2 m i j h | Some v \<Rightarrow> v)"
  using assms
proof (induction es arbitrary: h)
  case Nil
  then show ?case by (simp add: last_value_def)
next
  case (Cons e es)
  obtain r c v where e: "e = (r, c, v)" by (cases e)
  have ok: "rows_ok (store_entry m r c v h) m"
    using Cons.prems by (rule rows_ok_store_entry)
  have lv: "last_value (e # es) i j =
      (case last_value es i j of Some w \<Rightarrow> Some w
       | None \<Rightarrow> if i = r \<and> j = c then Some v else None)"
    by (simp add: last_value_def e map_add_def split: option.splits)
  have st: "has2 m i j (store_entry m r c v h) = (i = r \<and> j = c \<or> has2 m i j h)"
    using Cons.prems by (rule has2_store)
  have lk: "lookup2 m i j (store_entry m r c v h) =
      (if i = r \<and> j = c then v else lookup2 m i j h)"
    using lookup2_store_other [OF Cons.prems, of i r j c v]
    by (auto simp: lookup2_store_same)
  from Cons.IH [OF ok, of ] show ?case
    unfolding fold_Cons comp_def e prod.case st lk lv [unfolded e]
    by (cases "last_value es i j") auto
qed

lemma loadable_headers:
  assumes "loadable h p"
  shows "\<exists>rows cols. read_headers h p = Some (rows, cols)"
    and "list_all (\<lambda>l. strip l = [] \<or> entry_ok l) (drop 2 (file_lines (the (files h p))))"
proof -
  from assms obtain content l1 l2 ls where f: "files h p = Some content"
    and ls: "file_lines content = l1 # l2 # ls"
    and ok: "header_ok l1" "header_ok l2" "list_all (\<lambda>l. strip l = [] \<or> entry_ok l) ls"
    by (auto simp: loadable_def file_ok_def split: option.splits list.splits)
  from ok(1,2) obtain rows cols where "header_int l1 = Inr rows" "header_int l2 = Inr cols"
    using header_int_outcome [of l1] header_int_outcome [of l2] by auto
  then show "\<exists>rows cols. read_headers h p = Some (rows, cols)"
    by (simp add: read_headers_def header_values_def f ls)
  show "list_all (\<lambda>l. strip l = [] \<or> entry_ok l) (drop 2 (file_lines (the (files h p))))"
    using ok(3) by (simp add: f ls)
qed

lemma load_matrix_loaded:
  assumes "loadable h p"
  shows "has2 (n_outers h) i j (snd (load_matrix self p h)) =
           (last_value (read_entries h p) i j \<noteq> None) \<and>
         lookup2 (n_outers h) i j (snd (load_matrix self p h)) =
           (case last_value (read_entries h p) i j of None \<Rightarrow> 0 | Some v \<Rightarrow> v)"
proof -
  from loadable_headers(1) [OF assms] obtain rows cols
    where hd: "read_headers h p = Some (rows, cols)" by blast
  from assms obtain content where f: "files h p = Some content"
    by (auto simp: loadable_def split: option.splits)
  from loadable_headers(2) [OF assms]
  have ls: "list_all (\<lambda>l. strip l = [] \<or> entry_ok l) (drop 2 (file_lines content))"
    by (simp add: f)
  let ?h1 = "h\<lparr>outers := (outers h)(n_outers h := []), n_outers := Suc (n_outers h),
               objs := (objs h)(self := (objs h self)\<lparr>numRows := rows, numCols := cols\<rparr>)\<rparr>"
  have eq: "snd (load_matrix self p h) =
      fold (\<lambda>(r, c, v). store_entry (n_outers h) r c v) (read_entries h p) ?h1"
    by (subst load_matrix_start) (simp add: hd load_entries_ok [OF ls] read_entries_def f)
  have ok: "rows_ok ?h1 (n_outers h)" by (simp add: rows_ok_def)
  have e: "has2 (n_outers h) i j ?h1 = False" "lookup2 (n_outers h) i j ?h1 = 0"
    by (simp_all add: has2_def lookup2_def dict_get_Nil)
  from fold_store_last [OF ok, of i j "read_entries h p"] show ?thesis
    unfolding eq e by simp
qed


lemma heap_P_built:
  "fst (SparseMatrix_init None 2 3 disk_four) = Inr 0"
  "set_element 0 0 0 4 (snd (SparseMatrix_init None 2 3 disk_four)) = heap_P"
  by (simp_all add: SparseMatrix_init_def set_element_def heap_eval disk_four_def empty_heap_def
      heap_P_def)

lemma load_P:
  "fst (load_matrix 0 ''four.txt'' heap_P) = Inr (Suc 0)"
  "fst (load_matrix 0 ''short.txt'' heap_P) = Inl (FormatError IndexError)"
  "objs (snd (load_matrix 0 ''short.txt'' heap_P)) 0 = \<lparr>matrix = 0, numRows = 1, numCols = 1\<rparr>"
  "entries 0 (snd (load_matrix 0 ''short.txt'' heap_P)) = [(0, 0, 4)]"
  by (simp_all add: four_lines four_parse heap_eval file_eval heap_P_def entries_def)

lemma read_P:
  "loadable heap_P ''four.txt''" "\<not> loadable heap_P ''short.txt''"
  "read_headers heap_P ''four.txt'' = Some (1, 1)"
  "read_headers heap_P ''short.txt'' = Some (1, 1)"
  "read_entries heap_P ''four.txt'' = [(0, 0, 5)]"
  by (simp_all add: loadable_def file_ok_def four_lines header_ok_def entry_ok_def parse_defs
      read_headers_def header_values_def read_entries_def line_entries_def heap_P_def)

lemma read_AB:
  "loadable heap_AB ''B.txt''"
  "read_headers heap_AB ''B.txt'' = Some (2, 2)"
  "read_entries heap_AB ''B.txt'' = [(0, 0, 5), (1, 1, 6)]"
  by (simp_all add: loadable_def file_ok_def text_B_lines header_ok_def entry_ok_def parse_defs
      read_headers_def header_values_def read_entries_def line_entries_def heap_AB_def)

lemma read_none:
  "\<not> loadable heap_P ''none.txt''"
  "read_headers heap_P ''none.txt'' = None"
  by (simp_all add: loadable_def read_headers_def heap_P_def)

text \<open>
  The digit limit: a literal that \<open>int\<close> accepts has at most \<open>max_str_digits\<close> digits, so
  a file whose header or data line holds a longer number is not loadable and its load
  fails with the wrong-format error.
\<close>

lemma filter_dropWhile_other:
  "(\<And>x. P x \<Longrightarrow> \<not> Q x) \<Longrightarrow> filter Q (dropWhile P xs) = filter Q xs"
  by (induction xs) auto

lemma digits_trimmed:
  "filter is_digit (rev (dropWhile int_isspace (rev (dropWhile int_isspace s)))) =
   filter is_digit s"
proof -
  have ns: "\<not> is_digit x" if "int_isspace x" for x
    using that by (auto simp: int_isspace_def is_digit_def)
  have "filter is_digit (rev (dropWhile int_isspace (rev (dropWhile int_isspace s)))) =
      rev (filter is_digit (dropWhile int_isspace (rev (dropWhile int_isspace s))))"
    by (simp only: rev_filter)
  also have "\<dots> = rev (filter is_digit (rev (dropWhile int_isspace s)))"
    by (simp only: filter_dropWhile_other [of int_isspace is_digit, OF ns])
  also have "\<dots> = filter is_digit (dropWhile int_isspace s)"
    by (simp add: rev_filter)
  also have "\<dots> = filter is_digit s"
    by (simp only: filter_dropWhile_other [of int_isspace is_digit, OF ns])
  finally show ?thesis .
qed

lemma int_unsigned_limit:
  "int_unsigned u = Some n \<Longrightarrow> length (filter is_digit u) \<le> max_str_digits"
  by (auto simp: int_unsigned_def split: list.splits if_splits)

lemma py_int_limit:
  assumes "py_int s = Some i"
  shows "length (filter is_digit s) \<le> max_str_digits"
proof -
  let ?t = "rev (dropWhile int_isspace (rev (dropWhile int_isspace s)))"
  from assms obtain c cs where t: "?t = c # cs"
    by (cases ?t) (simp_all add: py_int_def)
  have sign: "\<not> is_digit CHR ''-''" "\<not> is_digit CHR ''+''"
    by (simp_all add: is_digit_def)
  from assms t have "length (filter is_digit ?t) \<le> max_str_digits"
    using int_unsigned_limit [of cs] int_unsigned_limit [of "c # cs"] sign
    by (auto simp: py_int_def split: if_splits)
  then show ?thesis by (simp only: digits_trimmed)
qed

lemma py_int_over_limit: "py_int (replicate 4301 CHR ''7'') = None"
proof (rule ccontr)
  assume "py_int (replicate 4301 CHR ''7'') \<noteq> None"
  then obtain i where "py_int (replicate 4301 CHR ''7'') = Some i" by auto
  from py_int_limit [OF this] show False
    by (simp add: max_str_digits_def is_digit_def)
qed


lemma header_over_limit:
  "header_int (''rows='' @ replicate 4301 CHR ''7'' @ [CHR 0x0A]) = Inl ValueError"
proof -
  have "str_split CHR ''='' (''rows'' @ CHR ''='' # (replicate 4301 CHR ''7'' @ [CHR 0x0A])) =
      [''rows'', replicate 4301 CHR ''7'' @ [CHR 0x0A]]"
    by (subst str_split_prefix) (simp_all add: str_split_nosep)
  moreover have "py_int (replicate 4301 CHR ''7'' @ [CHR 0x0A]) = None"
  proof (rule ccontr)
    assume "py_int (replicate 4301 CHR ''7'' @ [CHR 0x0A]) \<noteq> None"
    then obtain i where "py_int (replicate 4301 CHR ''7'' @ [CHR 0x0A]) = Some i" by auto
    from py_int_limit [OF this] show False
      by (simp add: max_str_digits_def is_digit_def)
  qed
  ultimately show ?thesis by (simp add: header_int_def)
qed

lemma load_over_limit:
  assumes "files h p = Some (''rows='' @ replicate 4301 CHR ''7'' @ CHR 0x0A # ''cols=1\<newline>'')"
  shows "fst (load_matrix self p h) = Inl (FormatError ValueError)"
    and "\<not> loadable h p"
proof -
  have "CHR 0x0A \<notin> set (''rows='' @ replicate 4301 CHR ''7'')" by simp
  from file_lines_line [OF this, of "''cols=1\<newline>''"]
  have ls: "file_lines (''rows='' @ replicate 4301 CHR ''7'' @ CHR 0x0A # ''cols=1\<newline>'') =
      (''rows='' @ replicate 4301 CHR ''7'' @ [CHR 0x0A]) # [''cols=1\<newline>'']"
    by simp
  have hd: "fst (readline (file_lines
      (''rows='' @ replicate 4301 CHR ''7'' @ CHR 0x0A # ''cols=1\<newline>''))) =
      ''rows='' @ replicate 4301 CHR ''7'' @ [CHR 0x0A]"
    by (simp only: ls readline_def list.case fst_conv)
  show "fst (load_matrix self p h) = Inl (FormatError ValueError)"
    by (simp only: load_matrix_eq assms option.case hd header_over_limit sum.case fst_conv)
  have "\<not> header_ok (''rows='' @ replicate 4301 CHR ''7'' @ [CHR 0x0A])"
  proof
    assume "header_ok (''rows='' @ replicate 4301 CHR ''7'' @ [CHR 0x0A])"
    with header_int_outcome [of "''rows='' @ replicate 4301 CHR ''7'' @ [CHR 0x0A]"]
    obtain n where "header_int (''rows='' @ replicate 4301 CHR ''7'' @ [CHR 0x0A]) = Inr n"
      by auto
    then show False by (simp only: header_over_limit) simp
  qed
  then show "\<not> loadable h p"
    by (simp only: loadable_def assms option.case file_ok_def ls list.case) simp
qed

lemma load_matrix_result:
  "if loadable h p then fst (load_matrix self p h) = Inr (n_outers h)
   else (\<exists>c. fst (load_matrix self p h) = Inl (FormatError c))"
proof (cases "files h p")
  case None
  then show ?thesis by (simp add: loadable_def load_matrix_eq)
next
  case (Some content)
  show ?thesis
  proof (cases "file_lines content")
    case Nil
    then show ?thesis
      using Some header_int_outcome [of "[]"]
      by (auto simp: loadable_def file_ok_def load_matrix_eq readline_def header_ok_def
          header_int_def)
  next
    case (Cons l1 rest)
    note l1 = Cons
    show ?thesis
    proof (cases "header_ok l1")
      case False
      then obtain c where "header_int l1 = Inl c"
        using header_int_outcome [of l1] by auto
      with False Some l1 show ?thesis
        by (auto simp: loadable_def file_ok_def load_matrix_eq readline_def split: list.splits)
    next
      case ok1: True
      then obtain rows where r: "header_int l1 = Inr rows"
        using header_int_outcome [of l1] by auto
      show ?thesis
      proof (cases rest)
        case Nil
        with Some l1 r show ?thesis
          by (simp add: loadable_def file_ok_def load_matrix_eq readline_def header_int_def)
      next
        case (Cons l2 ls)
        show ?thesis
        proof (cases "header_ok l2")
          case False
          then obtain c where "header_int l2 = Inl c"
            using header_int_outcome [of l2] by auto
          with False Some l1 Cons r show ?thesis
            by (simp add: loadable_def file_ok_def load_matrix_eq readline_def)
        next
          case ok2: True
          then obtain cols where c: "header_int l2 = Inr cols"
            using header_int_outcome [of l2] by auto
          show ?thesis
            using Some l1 Cons r c ok1 ok2
              load_entries_outcome [of ls "n_outers h"
                "h\<lparr>outers := (outers h)(n_outers h := []), n_outers := Suc (n_outers h),
                   objs := (objs h)(self := (objs h self)\<lparr>numRows := rows, numCols := cols\<rparr>)\<rparr>"]
            by (simp add: loadable_def file_ok_def load_matrix_eq readline_def)
        qed
      qed
    qed
  qed
qed


section \<open>The claims\<close>

text \<open>
  C8.  On every store and for all integers \<open>row\<close>, \<open>col\<close> and \<open>v\<close>, zero included,
  \<open>set_element(row, col, v)\<close> followed by \<open>get_element(row, col)\<close> returns \<open>v\<close>, and
  the triple \<open>(row, col, v)\<close> is among the stored entries afterwards: a zero is stored as
  an entry, the key is not removed.
\<close>

theorem set_then_get:
  "get_element self row col (set_element self row col v h) = v \<and>
   (row, col, v) \<in> set (entries self (set_element self row col v h))"
  using entries_store_entry [of row col v "matrix (objs h self)" h]
  by (simp add: get_element_def set_element_def objs_store_entry lookup2_store_same entries_def)

text \<open>
  C10.  \<open>set_element(row, col, v)\<close> changes the target cell only: at every other position
  \<open>get_element\<close> returns what it returned before, and \<open>numRows\<close> and \<open>numCols\<close> keep
  their values.  The rows of the matrix are distinct row dictionaries that exist in the
  store, as they are for every matrix built by the class.
\<close>

theorem set_element_only_target:
  assumes "rows_ok h (matrix (objs h self))" and "(r, c) \<noteq> (row, col)"
  shows "get_element self r c (set_element self row col v h) = get_element self r c h \<and>
         numRows (objs (set_element self row col v h) self) = numRows (objs h self) \<and>
         numCols (objs (set_element self row col v h) self) = numCols (objs h self)"
  using lookup2_store_other [OF assms(1), of r row c col v] assms(2)
  by (auto simp add: get_element_def set_element_def objs_store_entry)

theorem set_element_only_target_witness:
  "rows_ok example_AB (matrix (objs example_AB 0)) \<and> ((1, 1) :: int \<times> int) \<noteq> (0, 1) \<and>
   get_element 0 1 1 (set_element 0 0 1 9 example_AB) = 4 \<and>
   numRows (objs (set_element 0 0 1 9 example_AB) 0) = 2 \<and>
   numCols (objs (set_element 0 0 1 9 example_AB) 0) = 2"
  using set_element_only_target [OF example_AB_rows_ok, of 1 1 0 1 9]
  by (simp add: example_AB_rows_ok example_AB_get example_AB_dims)

text \<open>
  C4.  \<open>multiply\<close> raises the dimension error exactly when \<open>self.numCols\<close> differs from
  \<open>other_matrix.numRows\<close>; it raises before anything is computed, so the store it
  leaves is the store it was given; when the two agree it returns a result.
\<close>

theorem multiply_dimension_check:
  "(numCols (objs h self) \<noteq> numRows (objs h other_matrix) \<longrightarrow>
      multiply self other_matrix h = (Inl DimensionMismatch, h)) \<and>
   (numCols (objs h self) = numRows (objs h other_matrix) \<longrightarrow>
      (\<exists>r h'. multiply self other_matrix h = (Inr r, h')))"
  by (simp add: multiply_def split: prod.splits)

theorem multiply_dimension_check_witness:
  "numCols (objs example_23 0) \<noteq> numRows (objs example_23 (Suc 0)) \<and>
   multiply 0 (Suc 0) example_23 = (Inl DimensionMismatch, example_23) \<and>
   numCols (objs example_AB 0) = numRows (objs example_AB (Suc 0)) \<and>
   (\<exists>r h'. multiply 0 (Suc 0) example_AB = (Inr r, h'))"
  using multiply_dimension_check [of example_23 0 "Suc 0"]
    multiply_dimension_check [of example_AB 0 "Suc 0"]
  by (simp add: example_23_dims example_AB_dims)

text \<open>
  C3.  For matrices \<open>A\<close> and \<open>B\<close> of equal dimensions and every position \<open>(i, j)\<close> inside
  them, the result of \<open>A.add(B)\<close> has \<open>get_element(i, j)\<close> equal to
  \<open>A.get_element(i, j) + B.get_element(i, j)\<close>, read after the call or before it.
\<close>

theorem add_get_element:
  assumes "allocated h A" and "allocated h B"
    and "numRows (objs h A) = numRows (objs h B)" and "numCols (objs h A) = numCols (objs h B)"
    and "0 \<le> i" and "i < numRows (objs h A)" and "0 \<le> j" and "j < numCols (objs h A)"
    and "add A B h = (r, h')"
  shows "get_element r i j h' = get_element A i j h' + get_element B i j h' \<and>
         get_element A i j h' = get_element A i j h \<and>
         get_element B i j h' = get_element B i j h"
proof -
  note R = add_result [OF assms(1,2,9)]
  have "get_element r i j h' = get_element A i j h + get_element B i j h"
    using R(4) [of i j] assms(5-8) by simp
  moreover have "get_element A i j h' = get_element A i j h"
    using assms(1) R(1) by (rule get_element_frame)
  moreover have "get_element B i j h' = get_element B i j h"
    using assms(2) R(1) by (rule get_element_frame)
  ultimately show ?thesis by simp
qed

theorem add_get_element_witness:
  "allocated example_AB 0 \<and> allocated example_AB (Suc 0) \<and>
   numRows (objs example_AB 0) = numRows (objs example_AB (Suc 0)) \<and>
   numCols (objs example_AB 0) = numCols (objs example_AB (Suc 0)) \<and>
   (0::int) \<le> 1 \<and> 1 < numRows (objs example_AB 0) \<and> 1 < numCols (objs example_AB 0) \<and>
   get_element (fst (add 0 (Suc 0) example_AB)) 1 1 (snd (add 0 (Suc 0) example_AB)) = 10"
  using add_get_element [OF example_AB_allocated, of 1 1 "fst (add 0 (Suc 0) example_AB)"
      "snd (add 0 (Suc 0) example_AB)"]
  by (simp add: example_AB_allocated example_AB_dims example_AB_get)

text \<open>
  C7.  Whatever the dimensions of \<open>B\<close>, \<open>A.add(B)\<close> and \<open>A.subtract(B)\<close> return a result
  (neither has an error outcome) with the dimensions of \<open>A\<close>, in which every cell of the
  grid of \<open>A\<close> is a stored key, zero-valued cells included, holding the sum or the
  difference of the operands' cells; a position that \<open>B\<close> does not store is read as zero.
\<close>

theorem add_subtract_dense:
  assumes "allocated h A" and "allocated h B"
    and "add A B h = (ra, ha)" and "subtract A B h = (rs, hs)"
  shows "numRows (objs ha ra) = numRows (objs h A) \<and> numCols (objs ha ra) = numCols (objs h A) \<and>
         numRows (objs hs rs) = numRows (objs h A) \<and> numCols (objs hs rs) = numCols (objs h A) \<and>
         (\<forall>i j. 0 \<le> i \<and> i < numRows (objs h A) \<and> 0 \<le> j \<and> j < numCols (objs h A) \<longrightarrow>
            row_has ra i j ha \<and>
            get_element ra i j ha = get_element A i j h + get_element B i j h \<and>
            row_has rs i j hs \<and>
            get_element rs i j hs = get_element A i j h - get_element B i j h \<and>
            (\<not> row_has B i j h \<longrightarrow>
               get_element ra i j ha = get_element A i j h \<and>
               get_element rs i j hs = get_element A i j h))"
proof -
  note Ra = add_result [OF assms(1,2,3)]
  note Rs = subtract_result [OF assms(1,2,4)]
  have dims: "numRows (objs ha ra) = numRows (objs h A)" "numCols (objs ha ra) = numCols (objs h A)"
    "numRows (objs hs rs) = numRows (objs h A)" "numCols (objs hs rs) = numCols (objs h A)"
    by (simp_all add: Ra(3) Rs(3))
  have cells: "row_has ra i j ha \<and>
            get_element ra i j ha = get_element A i j h + get_element B i j h \<and>
            row_has rs i j hs \<and>
            get_element rs i j hs = get_element A i j h - get_element B i j h \<and>
            (\<not> row_has B i j h \<longrightarrow>
               get_element ra i j ha = get_element A i j h \<and>
               get_element rs i j hs = get_element A i j h)"
    if "0 \<le> i \<and> i < numRows (objs h A) \<and> 0 \<le> j \<and> j < numCols (objs h A)" for i j
    using that Ra(4) [of i j] Ra(5) [of i j] Rs(4) [of i j] Rs(5) [of i j]
      get_element_absent [of B i j h]
    by simp
  from dims cells show ?thesis by blast
qed

theorem add_subtract_dense_witness:
  "allocated example_diff 0 \<and> allocated example_diff (Suc 0) \<and>
   numRows (objs example_diff (Suc 0)) \<noteq> numRows (objs example_diff 0) \<and>
   numRows (objs (snd (add 0 (Suc 0) example_diff)) (fst (add 0 (Suc 0) example_diff))) = 2 \<and>
   numCols (objs (snd (subtract 0 (Suc 0) example_diff)) (fst (subtract 0 (Suc 0) example_diff))) = 2 \<and>
   row_has (fst (add 0 (Suc 0) example_diff)) 1 1 (snd (add 0 (Suc 0) example_diff)) \<and>
   get_element (fst (add 0 (Suc 0) example_diff)) 1 1 (snd (add 0 (Suc 0) example_diff)) = 4 \<and>
   get_element (fst (subtract 0 (Suc 0) example_diff)) 1 1 (snd (subtract 0 (Suc 0) example_diff)) = 4"
  using add_subtract_dense [OF example_diff_facts(1,2), of "fst (add 0 (Suc 0) example_diff)"
      "snd (add 0 (Suc 0) example_diff)" "fst (subtract 0 (Suc 0) example_diff)"
      "snd (subtract 0 (Suc 0) example_diff)"]
  by (simp add: example_diff_facts)

text \<open>
  C9.  \<open>add\<close>, \<open>subtract\<close> and \<open>multiply\<close> (when it does not raise) return an instance
  created by the call; the attributes, the dictionary of rows, every row dictionary and so
  the stored entries of both operands are the same after the call as before it, and the
  result has no dictionary in common with either operand.  When \<open>multiply\<close> raises, the
  store is the one it was given.
\<close>

theorem arithmetic_leaves_operands:
  assumes "allocated h A" and "allocated h B"
  shows "(case add A B h of (r, h') \<Rightarrow> new_result h h' A B r) \<and>
         (case subtract A B h of (r, h') \<Rightarrow> new_result h h' A B r) \<and>
         (case multiply A B h of
            (Inl e, h') \<Rightarrow> h' = h
          | (Inr r, h') \<Rightarrow> new_result h h' A B r)"
proof -
  have "new_result h h' A B r" if "add A B h = (r, h')" for r h'
    using assms add_result(1,2) [OF assms that] by (rule new_resultI)
  moreover have "new_result h h' A B r" if "subtract A B h = (r, h')" for r h'
    using assms subtract_result(1,2) [OF assms that] by (rule new_resultI)
  moreover have "new_result h h' A B r" if "multiply A B h = (Inr r, h')" for r h'
    using assms multiply_result(1,2) [OF that] by (rule new_resultI)
  moreover have "h' = h" if "multiply A B h = (Inl e, h')" for e h'
    using that by (auto simp: multiply_def split: if_splits prod.splits)
  ultimately show ?thesis
    by (auto split: prod.splits sum.splits)
qed

theorem arithmetic_leaves_operands_witness:
  "allocated example_AB 0 \<and> allocated example_AB (Suc 0) \<and>
   (case add 0 (Suc 0) example_AB of (r, h') \<Rightarrow> new_result example_AB h' 0 (Suc 0) r) \<and>
   (case subtract 0 (Suc 0) example_AB of (r, h') \<Rightarrow> new_result example_AB h' 0 (Suc 0) r) \<and>
   (case multiply 0 (Suc 0) example_AB of
      (Inl e, h') \<Rightarrow> h' = example_AB
    | (Inr r, h') \<Rightarrow> new_result example_AB h' 0 (Suc 0) r)"
  using arithmetic_leaves_operands [OF example_AB_allocated] example_AB_allocated
  by simp

text \<open>
  C2.  After a file-mode construction that succeeds, \<open>numRows\<close> is the value stored at
  position (0,0), and 0 when nothing is stored there; \<open>numCols\<close> is the value stored at
  (0,1), and 0 when nothing is stored there.  The dimensions come from the entries, not
  from the header: the file of the witness declares 2 rows, and the matrix has 1.
\<close>

theorem file_mode_dimensions:
  assumes "SparseMatrix_init (Some p) r c h = (Inr self, h')" and "p \<noteq> []"
  shows "numRows (objs h' self) = get_element self 0 0 h' \<and>
         numCols (objs h' self) = get_element self 0 1 h' \<and>
         (if row_has self 0 0 h' then (0, 0, numRows (objs h' self)) \<in> set (entries self h')
          else numRows (objs h' self) = 0) \<and>
         (if row_has self 0 1 h' then (0, 1, numCols (objs h' self)) \<in> set (entries self h')
          else numCols (objs h' self) = 0)"
proof -
  from assms have cf: "construct_file p h = (Inr self, h')"
    by (simp add: init_file)
  obtain res h2 where l: "load_matrix (n_objs h) p
             (h\<lparr>objs := (objs h)(n_objs h := \<lparr>matrix = 0, numRows = 0, numCols = 0\<rparr>),
                n_objs := Suc (n_objs h)\<rparr>) = (res, h2)"
    by (cases "load_matrix (n_objs h) p
             (h\<lparr>objs := (objs h)(n_objs h := \<lparr>matrix = 0, numRows = 0, numCols = 0\<rparr>),
                n_objs := Suc (n_objs h)\<rparr>)")
  from cf obtain m where self: "self = n_objs h"
    and h': "h' = h2\<lparr>objs := (objs h2)(n_objs h :=
                  \<lparr>matrix = m, numRows = lookup2 m 0 0 h2, numCols = lookup2 m 0 1 h2\<rparr>)\<rparr>"
    by (cases res) (auto simp: construct_file_eq l)
  have g: "numRows (objs h' self) = get_element self 0 0 h'"
    "numCols (objs h' self) = get_element self 0 1 h'"
    by (simp_all add: self h' get_element_def lookup2_objs)
  show ?thesis
    using row_has_entry [of self 0 0 h'] row_has_entry [of self 0 1 h']
      get_element_absent [of self 0 0 h'] get_element_absent [of self 0 1 h']
    by (simp add: g)
qed

theorem file_mode_dimensions_witness:
  "SparseMatrix_init (Some ''A.txt'') 0 0 disk = (Inr 0, heap_A) \<and> ''A.txt'' \<noteq> [] \<and>
   header_int (fst (readline (file_lines text_A))) = Inr 2 \<and>
   numRows (objs heap_A 0) = 1 \<and> get_element 0 0 0 heap_A = 1 \<and>
   numCols (objs heap_A 0) = 2 \<and> get_element 0 0 1 heap_A = 2"
proof -
  have i: "SparseMatrix_init (Some ''A.txt'') 0 0 disk = (Inr 0, heap_A)"
    by (simp add: init_file load_A)
  have d: "numRows (objs heap_A 0) = 1" "numCols (objs heap_A 0) = 2"
    by (simp_all add: heap_A_def)
  from file_mode_dimensions [OF i] d i show ?thesis
    by (simp add: text_A_lines readline_def parse_lines)
qed

text \<open>
  C1.  The spec's scenario, run on the code.  The claim expects \<open>A.add(B)\<close> to have the
  entries (0,0,6), (0,1,2), (1,0,3), (1,1,10) and \<open>A.multiply(B)\<close> not to raise.  On the
  code the constructor replaces the header's dimensions by the entries at (0,0) and (0,1):
  \<open>A\<close> is 1 by 2 and \<open>B\<close> is 5 by 0, the sum has the two entries of row 0 only, and
  \<open>multiply\<close> raises the dimension error.
\<close>

theorem scenario_7_on_code:
  "SparseMatrix_init (Some ''A.txt'') 0 0 disk = (Inr 0, heap_A) \<and>
   SparseMatrix_init (Some ''B.txt'') 0 0 heap_A = (Inr (Suc 0), heap_AB) \<and>
   objs heap_AB 0 = \<lparr>matrix = 0, numRows = 1, numCols = 2\<rparr> \<and>
   objs heap_AB (Suc 0) = \<lparr>matrix = Suc 0, numRows = 5, numCols = 0\<rparr> \<and>
   entries 0 heap_AB = [(0, 0, 1), (0, 1, 2), (1, 0, 3), (1, 1, 4)] \<and>
   entries (Suc 0) heap_AB = [(0, 0, 5), (1, 1, 6)] \<and>
   entries (fst (add 0 (Suc 0) heap_AB)) (snd (add 0 (Suc 0) heap_AB)) = [(0, 0, 6), (0, 1, 2)] \<and>
   multiply 0 (Suc 0) heap_AB = (Inl DimensionMismatch, heap_AB)"
proof -
  have "objs heap_AB 0 = \<lparr>matrix = 0, numRows = 1, numCols = 2\<rparr>"
    "objs heap_AB (Suc 0) = \<lparr>matrix = Suc 0, numRows = 5, numCols = 0\<rparr>"
    "entries 0 heap_AB = [(0, 0, 1), (0, 1, 2), (1, 0, 3), (1, 1, 4)]"
    "entries (Suc 0) heap_AB = [(0, 0, 5), (1, 1, 6)]"
    by (simp_all add: heap_AB_def entries_def)
  moreover have "multiply 0 (Suc 0) heap_AB = (Inl DimensionMismatch, heap_AB)"
    by (simp add: multiply_def heap_AB_def)
  ultimately show ?thesis
    by (simp add: init_file load_A load_B heap_AB_sum)
qed

text \<open>
  C5.  Save followed by construction from the saved file, run on the code for a 2 by 2
  matrix with the entries (0,0,7) and (1,1,5).  The entries come back; the dimensions do
  not: the constructor sets them to 7 and 0.
\<close>

theorem round_trip_on_code:
  "numRows (objs heap_M 0) = 2 \<and> numCols (objs heap_M 0) = 2 \<and>
   entries 0 heap_M = [(0, 0, 7), (1, 1, 5)] \<and>
   fst (save_to_file 0 ''out.txt'' heap_M) = Inr () \<and>
   files (snd (save_to_file 0 ''out.txt'' heap_M)) ''out.txt'' =
     Some ''rows=2\<newline>cols=2\<newline>(0, 0, 7)\<newline>(1, 1, 5)\<newline>'' \<and>
   fst reloaded = Inr (Suc 0) \<and>
   numRows (objs (snd reloaded) (Suc 0)) = 7 \<and> numCols (objs (snd reloaded) (Suc 0)) = 0 \<and>
   entries (Suc 0) (snd reloaded) = [(0, 0, 7), (1, 1, 5)]"
proof -
  have "numRows (objs heap_M 0) = 2" "numCols (objs heap_M 0) = 2"
    "entries 0 heap_M = [(0, 0, 7), (1, 1, 5)]"
    by (simp_all add: heap_M_def entries_def)
  moreover have "fst (save_to_file 0 ''out.txt'' heap_M) = Inr ()"
    "files (snd (save_to_file 0 ''out.txt'' heap_M)) ''out.txt'' =
     Some ''rows=2\<newline>cols=2\<newline>(0, 0, 7)\<newline>(1, 1, 5)\<newline>''"
    by (simp_all add: save_M heap_saved_def)
  ultimately show ?thesis
    by (simp add: reloaded_eval)
qed

text \<open>
  C6, as the claim states it, fails in two places.  A data line of four components loads,
  its first three components becoming the entry.  And a load that fails in a data line is
  not without effect: \<open>load_matrix\<close> assigns \<open>self.numRows\<close> and \<open>self.numCols\<close> as soon as
  the two header lines are read, so \<open>P.load_matrix('short.txt')\<close> on the 2 by 3 matrix
  \<open>P\<close> raises the wrong-format error and leaves \<open>P\<close> with the dimensions 1 by 1 of the
  file's header and its own entries.
\<close>

theorem four_fields_and_partial_load:
  "files disk_four ''four.txt'' = Some ''rows=1\<newline>cols=1\<newline>(0,0,5,9)\<newline>'' \<and>
   str_split CHR '','' (slice_1_m1 (strip ''(0,0,5,9)\<newline>'')) = [''0'', ''0'', ''5'', ''9''] \<and>
   fst (SparseMatrix_init (Some ''four.txt'') 0 0 disk_four) = Inr 0 \<and>
   entries 0 (snd (SparseMatrix_init (Some ''four.txt'') 0 0 disk_four)) = [(0, 0, 5)] \<and>
   fst (SparseMatrix_init None 2 3 disk_four) = Inr 0 \<and>
   set_element 0 0 0 4 (snd (SparseMatrix_init None 2 3 disk_four)) = heap_P \<and>
   files heap_P ''short.txt'' = Some ''rows=1\<newline>cols=1\<newline>(0,0)\<newline>'' \<and>
   numRows (objs heap_P 0) = 2 \<and> numCols (objs heap_P 0) = 3 \<and>
   entries 0 heap_P = [(0, 0, 4)] \<and>
   fst (load_matrix 0 ''short.txt'' heap_P) = Inl (FormatError IndexError) \<and>
   numRows (objs (snd (load_matrix 0 ''short.txt'' heap_P)) 0) = 1 \<and>
   numCols (objs (snd (load_matrix 0 ''short.txt'' heap_P)) 0) = 1 \<and>
   entries 0 (snd (load_matrix 0 ''short.txt'' heap_P)) = [(0, 0, 4)]"
proof -
  have "files disk_four ''four.txt'' = Some ''rows=1\<newline>cols=1\<newline>(0,0,5,9)\<newline>''"
    by (simp add: disk_four_def text_four_def)
  moreover have "str_split CHR '','' (slice_1_m1 (strip ''(0,0,5,9)\<newline>'')) =
      [''0'', ''0'', ''5'', ''9'']"
    by (simp add: strip_def slice_1_m1_def str_isspace_def)
  moreover have "files heap_P ''short.txt'' = Some ''rows=1\<newline>cols=1\<newline>(0,0)\<newline>''"
    "numRows (objs heap_P 0) = 2" "numCols (objs heap_P 0) = 3" "entries 0 heap_P = [(0, 0, 4)]"
    by (simp_all add: heap_P_def text_short_def entries_def)
  ultimately show ?thesis
    by (simp add: init_file four_eval heap_P_built load_P)
qed

text \<open>
  C6, amended.  \<open>load_matrix\<close> fails with the wrong-format error exactly when the file
  cannot be opened or is not of the accepted form (\<open>loadable\<close>); the error carries a
  cause; otherwise the load returns the dictionary it built.  Whatever the outcome, the
  files, the other instances, the reference \<open>self.matrix\<close> and every dictionary that
  existed before the call are as they were.  The attributes \<open>numRows\<close> and \<open>numCols\<close> of
  \<open>self\<close> are assigned the numbers of the header when the file opens and both header lines
  are read, also when a later line makes the load fail, and \<open>self\<close> is as it was
  otherwise.  A load that succeeds is complete: the dictionary returned holds a key for
  exactly the positions named by the data lines, each with the value of the last line
  that names it.
\<close>

theorem load_matrix_outcome:
  "(if loadable h p then fst (load_matrix self p h) = Inr (n_outers h)
    else (\<exists>c. fst (load_matrix self p h) = Inl (FormatError c))) \<and>
   others_kept self h (snd (load_matrix self p h)) \<and>
   objs (snd (load_matrix self p h)) self =
     (case read_headers h p of
        None \<Rightarrow> objs h self
      | Some (rows, cols) \<Rightarrow> (objs h self)\<lparr>numRows := rows, numCols := cols\<rparr>) \<and>
   (loadable h p \<longrightarrow>
      (\<forall>row col.
         has2 (n_outers h) row col (snd (load_matrix self p h)) =
           (last_value (read_entries h p) row col \<noteq> None) \<and>
         lookup2 (n_outers h) row col (snd (load_matrix self p h)) =
           (case last_value (read_entries h p) row col of None \<Rightarrow> 0 | Some v \<Rightarrow> v)))"
proof -
  have "objs (snd (load_matrix self p h)) self =
     (case read_headers h p of
        None \<Rightarrow> objs h self
      | Some (rows, cols) \<Rightarrow> (objs h self)\<lparr>numRows := rows, numCols := cols\<rparr>)"
    by (simp add: load_matrix_objs split: option.splits)
  with load_matrix_result [of h p self] load_matrix_kept [of self h p]
    load_matrix_loaded [of h p _ _ self]
  show ?thesis by blast
qed

theorem load_matrix_outcome_witness:
  "loadable heap_AB ''B.txt'' \<and>
   fst (load_matrix 0 ''B.txt'' heap_AB) = Inr 2 \<and>
   objs (snd (load_matrix 0 ''B.txt'' heap_AB)) 0 = \<lparr>matrix = 0, numRows = 2, numCols = 2\<rparr> \<and>
   objs (snd (load_matrix 0 ''B.txt'' heap_AB)) (Suc 0) = \<lparr>matrix = Suc 0, numRows = 5, numCols = 0\<rparr> \<and>
   outers (snd (load_matrix 0 ''B.txt'' heap_AB)) 0 = [(0, 0), (1, Suc 0)] \<and>
   inners (snd (load_matrix 0 ''B.txt'' heap_AB)) 0 = [(0, 1), (1, 2)] \<and>
   has2 2 1 1 (snd (load_matrix 0 ''B.txt'' heap_AB)) \<and>
   lookup2 2 1 1 (snd (load_matrix 0 ''B.txt'' heap_AB)) = 6 \<and>
   \<not> has2 2 0 1 (snd (load_matrix 0 ''B.txt'' heap_AB)) \<and>
   \<not> loadable heap_P ''short.txt'' \<and>
   (\<exists>c. fst (load_matrix 0 ''short.txt'' heap_P) = Inl (FormatError c)) \<and>
   objs (snd (load_matrix 0 ''short.txt'' heap_P)) 0 = \<lparr>matrix = 0, numRows = 1, numCols = 1\<rparr> \<and>
   outers (snd (load_matrix 0 ''short.txt'' heap_P)) 0 = [(0, 0)] \<and>
   inners (snd (load_matrix 0 ''short.txt'' heap_P)) 0 = [(0, 4)] \<and>
   \<not> loadable heap_P ''none.txt'' \<and>
   (\<exists>c. fst (load_matrix 0 ''none.txt'' heap_P) = Inl (FormatError c)) \<and>
   objs (snd (load_matrix 0 ''none.txt'' heap_P)) 0 = \<lparr>matrix = 0, numRows = 2, numCols = 3\<rparr>"
  using load_matrix_outcome [of heap_AB "''B.txt''" 0]
    load_matrix_outcome [of heap_P "''short.txt''" 0]
    load_matrix_outcome [of heap_P "''none.txt''" 0]
  by (simp add: read_P read_AB read_none others_kept_def last_value_def)
     (simp add: heap_P_def heap_AB_def)

end
